theory Spec2Isabelle
  imports Main "HOL-Library.Sublist" "HOL-Library.Multiset"
begin

section \<open>Strings\<close>

text \<open>
  A Python \<open>str\<close> is modelled as a \<open>string\<close>; a \<open>char\<close> stands for a code point
  below 256. \<open>isspace\<close> lists the code points of that range for which Python's
  \<open>str.isspace\<close> holds; \<open>strip\<close> is \<open>str.strip()\<close> without argument, which removes
  white space at both ends.
\<close>

definition isspace :: "char \<Rightarrow> bool" where
  "isspace c \<longleftrightarrow> c \<in> set [CHR 0x09, CHR 0x0A, CHR 0x0B, CHR 0x0C, CHR 0x0D,
                        CHR 0x1C, CHR 0x1D, CHR 0x1E, CHR 0x1F, CHR 0x20, CHR 0x85, CHR 0xA0]"

definition strip :: "string \<Rightarrow> string" where
  "strip s = rev (dropWhile isspace (rev (dropWhile isspace s)))"

text \<open>Decimal rendering of a non-negative integer, as an f-string prints it.\<close>

function str_nat :: "nat \<Rightarrow> string" where
  "str_nat n = (if n < 10 then [char_of (48 + n)]
                else str_nat (n div 10) @ [char_of (48 + n mod 10)])"
  by pat_completeness auto
termination
  by (relation "measure id") auto

declare str_nat.simps [simp del]

text \<open>\<open>sep.join(xs)\<close> on strings.\<close>

fun join :: "string \<Rightarrow> string list \<Rightarrow> string" where
  "join sep [] = []"
| "join sep [x] = x"
| "join sep (x # y # ys) = x @ sep @ join sep (y # ys)"

section \<open>parse_github_url\<close>

text \<open>
  The pattern is \<^verbatim>\<open>https://github\.com/([^/]+)/([^/]+)\<close>. At one position it matches when the
  literal prefix is there, followed by a non-empty run of characters other than \<open>/\<close>
  (group 1, greedy, so the whole run: a shorter one is not followed by \<open>/\<close>), a \<open>/\<close>, and a
  second non-empty run (group 2, greedy). \<open>re.search\<close> tries the positions from left to
  right and returns the first match.
\<close>

definition github_prefix :: string where
  "github_prefix = ''https://github.com/''"

definition not_slash :: "char \<Rightarrow> bool" where
  "not_slash c \<longleftrightarrow> c \<noteq> CHR ''/''"

definition match_pattern_at :: "string \<Rightarrow> (string \<times> string) option" where
  "match_pattern_at s =
     (if prefix github_prefix s then
        (let rest = drop (length github_prefix) s;
             g1 = takeWhile not_slash rest
         in if g1 = [] then None
            else (case dropWhile not_slash rest of
                    [] \<Rightarrow> None
                  | c # after \<Rightarrow>
                      (let g2 = takeWhile not_slash after
                       in if g2 = [] then None else Some (g1, g2))))
      else None)"

fun re_search :: "string \<Rightarrow> (string \<times> string) option" where
  "re_search [] = match_pattern_at []"
| "re_search (c # cs) =
     (case match_pattern_at (c # cs) of Some g \<Rightarrow> Some g | None \<Rightarrow> re_search cs)"

text \<open>The function returns the pair \<open>(None, None)\<close> when nothing matches.\<close>

definition parse_github_url :: "string \<Rightarrow> string option \<times> string option" where
  "parse_github_url url =
     (case re_search url of
        Some (g1, g2) \<Rightarrow> (Some g1, Some (strip g2))
      | None \<Rightarrow> (None, None))"

text \<open>
  The inputs in which the pattern occurs, stated without the matcher: some owner and
  repository segment, both non-empty and free of \<open>/\<close>, follow the literal prefix somewhere
  in the input.
\<close>

definition contains_github_pattern :: "string \<Rightarrow> bool" where
  "contains_github_pattern url \<longleftrightarrow>
     (\<exists>before owner repo after.
        url = before @ github_prefix @ owner @ ''/'' @ repo @ after \<and>
        owner \<noteq> [] \<and> CHR ''/'' \<notin> set owner \<and> repo \<noteq> [] \<and> CHR ''/'' \<notin> set repo)"

section \<open>Values and exceptions\<close>

text \<open>
  A parsed JSON value. An object is the association list of a \<open>dict\<close>, looked up with
  \<open>map_of\<close>; a number is an integer (no claim depends on a fraction).
\<close>

datatype json =
    JNull
  | JBool bool
  | JNum int
  | JStr string
  | JArr "json list"
  | JObj "(string \<times> json) list"

text \<open>
  The exceptions the handlers catch. \<open>RequestFailed\<close> is a network failure or a timeout of
  \<open>requests.get\<close> and \<open>ModelFailed\<close> a failure of the model call; both carry the text the
  library reports. \<open>HTTPError\<close> carries the status code of the response.
\<close>

datatype py_exn =
    RequestFailed string
  | HTTPError nat
  | JSONDecodeError
  | KeyError string
  | TypeError
  | AttributeError
  | DecodeError
  | ModelFailed string

text \<open>
  What \<open>requests.get\<close> gives back: an exception, or a response with its status code and
  its body as \<open>.json()\<close> parses it (\<open>None\<close> when the body is not JSON).
\<close>

datatype http_reply =
    Raises py_exn
  | Response nat "json option"

text \<open>The calls that leave the process: a GET with its URL and timeout, a prompt sent to the model.\<close>

datatype call =
    HttpGet string nat
  | Generate string

text \<open>
  The world outside the program. The two upstream services answer a request depending on
  the calls made so far, so that they may answer the same request differently over time.
  The library functions the code calls and whose text is not part of the repository are
  parameters: Markdown rendering, base64 and UTF-8 decoding, the text of an exception
  (\<open>str(e)\<close>), the text of a JSON value that is not a string inside an f-string, and
  \<open>strftime\<close> on a point in time (counted in microseconds).
\<close>

record env =
  requests_get :: "call list \<Rightarrow> string \<Rightarrow> nat \<Rightarrow> http_reply"
  generate_content :: "call list \<Rightarrow> string \<Rightarrow> py_exn + string"
  markdown :: "string \<Rightarrow> string"
  b64decode_utf8 :: "string \<Rightarrow> py_exn + string"
  str_exn :: "py_exn \<Rightarrow> string"
  str_json :: "json \<Rightarrow> string"
  strftime :: "string \<Rightarrow> int \<Rightarrow> string"

text \<open>Sequencing of steps that may raise: the first exception ends the \<open>try\<close> block.\<close>

definition and_then :: "py_exn + 'a \<Rightarrow> ('a \<Rightarrow> py_exn + 'b) \<Rightarrow> py_exn + 'b" where
  "and_then r f = (case r of Inl e \<Rightarrow> Inl e | Inr x \<Rightarrow> f x)"

text \<open>\<open>response.raise_for_status()\<close> raises on the status codes 400 to 599.\<close>

definition raise_for_status :: "http_reply \<Rightarrow> py_exn + json option" where
  "raise_for_status reply =
     (case reply of
        Raises e \<Rightarrow> Inl e
      | Response status_code body \<Rightarrow>
          if 400 \<le> status_code \<and> status_code < 600 then Inl (HTTPError status_code)
          else Inr body)"

definition response_json :: "json option \<Rightarrow> py_exn + json" where
  "response_json body = (case body of None \<Rightarrow> Inl JSONDecodeError | Some v \<Rightarrow> Inr v)"

text \<open>\<open>v[key]\<close> with a string key: only a \<open>dict\<close> can be indexed so.\<close>

definition getitem :: "json \<Rightarrow> string \<Rightarrow> py_exn + json" where
  "getitem v key =
     (case v of
        JObj kvs \<Rightarrow> (case map_of kvs key of None \<Rightarrow> Inl (KeyError key) | Some x \<Rightarrow> Inr x)
      | _ \<Rightarrow> Inl TypeError)"

text \<open>\<open>v.get(key, default)\<close>: a method of \<open>dict\<close> only.\<close>

definition get_default :: "json \<Rightarrow> string \<Rightarrow> json \<Rightarrow> py_exn + json" where
  "get_default v key dflt =
     (case v of
        JObj kvs \<Rightarrow> (case map_of kvs key of None \<Rightarrow> Inr dflt | Some x \<Rightarrow> Inr x)
      | _ \<Rightarrow> Inl AttributeError)"

text \<open>
  What a \<open>for\<close> loop iterates over: the elements of a list, the keys of a \<open>dict\<close>, the
  characters of a string; any other value is not iterable.
\<close>

definition py_iter :: "json \<Rightarrow> py_exn + json list" where
  "py_iter v =
     (case v of
        JArr xs \<Rightarrow> Inr xs
      | JObj kvs \<Rightarrow> Inr (map (\<lambda>kv. JStr (fst kv)) kvs)
      | JStr s \<Rightarrow> Inr (map (\<lambda>c. JStr [c]) s)
      | _ \<Rightarrow> Inl TypeError)"

text \<open>Truth value of a JSON value in a condition or under \<open>or\<close>.\<close>

definition truthy :: "json \<Rightarrow> bool" where
  "truthy v =
     (case v of
        JNull \<Rightarrow> False
      | JBool b \<Rightarrow> b
      | JNum n \<Rightarrow> n \<noteq> 0
      | JStr s \<Rightarrow> s \<noteq> []
      | JArr xs \<Rightarrow> xs \<noteq> []
      | JObj kvs \<Rightarrow> kvs \<noteq> [])"

text \<open>A value inside an f-string: a string as it is, any other value through \<open>str\<close>.\<close>

definition format_value :: "env \<Rightarrow> json \<Rightarrow> string" where
  "format_value env v = (case v of JStr s \<Rightarrow> s | _ \<Rightarrow> str_json env v)"

text \<open>\<open>sep.join(xs)\<close> raises unless every element is a string.\<close>

fun the_strs :: "json list \<Rightarrow> string list option" where
  "the_strs [] = Some []"
| "the_strs (JStr s # xs) = (case the_strs xs of None \<Rightarrow> None | Some ss \<Rightarrow> Some (s # ss))"
| "the_strs (_ # xs) = None"

definition str_join :: "string \<Rightarrow> json list \<Rightarrow> py_exn + string" where
  "str_join sep xs = (case the_strs xs of None \<Rightarrow> Inl TypeError | Some ss \<Rightarrow> Inr (join sep ss))"

section \<open>The GitHub and model helpers\<close>

text \<open>
  Each helper takes the calls made so far and returns its result with the calls made by
  its end. The result is \<open>Inl msg\<close> for the source's \<open>(None, msg)\<close> and \<open>Inr x\<close> for
  \<open>(x, None)\<close>.
\<close>

definition readme_content_of :: "env \<Rightarrow> http_reply \<Rightarrow> py_exn + string" where
  "readme_content_of env reply =
     and_then (raise_for_status reply) (\<lambda>body.
     and_then (response_json body) (\<lambda>j.
     and_then (getitem j ''content'') (\<lambda>c.
       case c of JStr s \<Rightarrow> b64decode_utf8 env s | _ \<Rightarrow> Inl TypeError)))"

definition get_github_readme ::
  "env \<Rightarrow> call list \<Rightarrow> string \<Rightarrow> string \<Rightarrow> (string + string) \<times> call list" where
  "get_github_readme env log owner repo_name =
     (let url = ''https://api.github.com/repos/'' @ owner @ ''/'' @ repo_name @ ''/readme''
      in (case readme_content_of env (requests_get env log url 15) of
            Inr content \<Rightarrow> Inr content
          | Inl (HTTPError status_code) \<Rightarrow>
              Inl (''Could not fetch README. (HTTP Error: '' @ str_nat status_code @ '')'')
          | Inl e \<Rightarrow> Inl (''An unexpected error occurred: '' @ str_exn env e),
          log @ [HttpGet url 15]))"

definition summary_prompt :: "string \<Rightarrow> string" where
  "summary_prompt readme_content =
     ''As a senior software engineer, analyze the following README and provide a concise summary in Markdown format, including project purpose, key features, and technology stack.\<newline>---''
     @ readme_content"

definition summarize_readme_with_gemini ::
  "env \<Rightarrow> call list \<Rightarrow> string \<Rightarrow> (string + string) \<times> call list" where
  "summarize_readme_with_gemini env log readme_content =
     (if readme_content = [] then (Inl ''README content is empty.'', log)
      else
        (let prompt = summary_prompt readme_content
         in (case generate_content env log prompt of
               Inr text \<Rightarrow> Inr (markdown env text)
             | Inl e \<Rightarrow> Inl (''Error generating summary: '' @ str_exn env e),
             log @ [Generate prompt])))"

text \<open>
  The list comprehension over the tree: for each item the condition \<open>item['type'] == 'blob'\<close>
  is evaluated first, and \<open>item['path']\<close> only when it holds.
\<close>

fun blob_paths :: "json list \<Rightarrow> py_exn + json list" where
  "blob_paths [] = Inr []"
| "blob_paths (item # items) =
     and_then (getitem item ''type'') (\<lambda>t.
       if t = JStr ''blob'' then
         and_then (getitem item ''path'') (\<lambda>p.
         and_then (blob_paths items) (\<lambda>ps. Inr (p # ps)))
       else blob_paths items)"

definition repo_api_url :: "string \<Rightarrow> string \<Rightarrow> string" where
  "repo_api_url owner repo_name = ''https://api.github.com/repos/'' @ owner @ ''/'' @ repo_name"

definition tree_api_url :: "string \<Rightarrow> string \<Rightarrow> string \<Rightarrow> string" where
  "tree_api_url owner repo_name default_branch =
     ''https://api.github.com/repos/'' @ owner @ ''/'' @ repo_name @ ''/git/trees/''
     @ default_branch @ ''?recursive=1''"

definition default_branch_of :: "http_reply \<Rightarrow> py_exn + json" where
  "default_branch_of reply =
     and_then (raise_for_status reply) (\<lambda>body.
     and_then (response_json body) (\<lambda>j. getitem j ''default_branch''))"

definition file_list_of :: "http_reply \<Rightarrow> py_exn + string" where
  "file_list_of reply =
     and_then (raise_for_status reply) (\<lambda>body.
     and_then (response_json body) (\<lambda>j.
     and_then (getitem j ''tree'') (\<lambda>tree.
     and_then (py_iter tree) (\<lambda>items.
     and_then (blob_paths items) (\<lambda>files. str_join ''\<newline>'' (take 200 files))))))"

definition get_github_file_structure ::
  "env \<Rightarrow> call list \<Rightarrow> string \<Rightarrow> string \<Rightarrow> (string + string) \<times> call list" where
  "get_github_file_structure env log owner repo_name =
     (let repo_url = repo_api_url owner repo_name;
          log1 = log @ [HttpGet repo_url 10]
      in (case default_branch_of (requests_get env log repo_url 10) of
            Inl e \<Rightarrow> (Inl (''Could not fetch file structure: '' @ str_exn env e), log1)
          | Inr default_branch \<Rightarrow>
              (let tree_url = tree_api_url owner repo_name (format_value env default_branch)
               in (case file_list_of (requests_get env log1 tree_url 15) of
                     Inl e \<Rightarrow> Inl (''Could not fetch file structure: '' @ str_exn env e)
                   | Inr text \<Rightarrow> Inr text,
                   log1 @ [HttpGet tree_url 15]))))"

text \<open>
  The file-structure text in the words of the specification, for comparison with the
  function above: of the entries of the tree, those of type \<open>blob\<close>; of these, the paths of
  the first 200, in the order of the tree; joined with newlines.
\<close>

definition blob_entry :: "json \<Rightarrow> bool" where
  "blob_entry item \<longleftrightarrow> getitem item ''type'' = Inr (JStr ''blob'')"

definition entry_path :: "json \<Rightarrow> string" where
  "entry_path item = (case getitem item ''path'' of Inr (JStr p) \<Rightarrow> p | _ \<Rightarrow> [])"

definition spec_file_structure :: "json list \<Rightarrow> string" where
  "spec_file_structure items = join ''\<newline>'' (map entry_path (take 200 (filter blob_entry items)))"

definition structure_prompt :: "string \<Rightarrow> string" where
  "structure_prompt file_structure =
     ''You are a principal software architect. Based on the file structure, provide a high-level analysis in Markdown format, including likely architecture, key components, and code organization.\<newline>---''
     @ file_structure"

definition analyze_structure_with_gemini ::
  "env \<Rightarrow> call list \<Rightarrow> string \<Rightarrow> (string + string) \<times> call list" where
  "analyze_structure_with_gemini env log file_structure =
     (if file_structure = [] then (Inl ''File structure is empty.'', log)
      else
        (let prompt = structure_prompt file_structure
         in (case generate_content env log prompt of
               Inr text \<Rightarrow> Inr (markdown env text)
             | Inl e \<Rightarrow> Inl (''Error generating analysis: '' @ str_exn env e),
             log @ [Generate prompt])))"

definition setup_prompt :: "string \<Rightarrow> string \<Rightarrow> string" where
  "setup_prompt readme file_structure =
     ''Based on the README and file structure, provide a step-by-step setup guide in Markdown format.\<newline>---README---\<newline>''
     @ readme @ ''\<newline>---FILE STRUCTURE---\<newline>'' @ file_structure"

definition get_setup_guide_with_gemini ::
  "env \<Rightarrow> call list \<Rightarrow> string \<Rightarrow> string \<Rightarrow> (string + string) \<times> call list" where
  "get_setup_guide_with_gemini env log readme file_structure =
     (let prompt = setup_prompt readme file_structure
      in (case generate_content env log prompt of
            Inr text \<Rightarrow> Inr (markdown env text)
          | Inl e \<Rightarrow> Inl (''Error generating setup guide: '' @ str_exn env e),
          log @ [Generate prompt]))"

section \<open>The route /api/analyze\<close>

text \<open>
  The body of a response of the route: the object with the key \<open>error\<close>, or the object
  with the three documents. A response is a status code with its body.
\<close>

datatype analyze_body =
    ErrorBody string
  | Documents string string string

definition analyze_repo_route ::
  "env \<Rightarrow> call list \<Rightarrow> string option \<Rightarrow> (nat \<times> analyze_body) \<times> call list" where
  "analyze_repo_route env log repo_url =
     (case repo_url of
        None \<Rightarrow> ((400, ErrorBody ''repo_url is required''), log)
      | Some url \<Rightarrow>
     if url = [] then ((400, ErrorBody ''repo_url is required''), log)
     else
     (case parse_github_url url of
        (Some owner, Some repo_name) \<Rightarrow>
          if owner = [] \<or> repo_name = [] then ((400, ErrorBody ''Invalid GitHub URL''), log)
          else
          (case get_github_readme env log owner repo_name of
             (Inl error, log1) \<Rightarrow> ((500, ErrorBody error), log1)
           | (Inr readme_content, log1) \<Rightarrow>
          (case summarize_readme_with_gemini env log1 readme_content of
             (Inl error, log2) \<Rightarrow> ((500, ErrorBody error), log2)
           | (Inr readme_summary, log2) \<Rightarrow>
          (case get_github_file_structure env log2 owner repo_name of
             (Inl error, log3) \<Rightarrow> ((500, ErrorBody error), log3)
           | (Inr file_structure, log3) \<Rightarrow>
          (case analyze_structure_with_gemini env log3 file_structure of
             (Inl error, log4) \<Rightarrow> ((500, ErrorBody error), log4)
           | (Inr structure_analysis, log4) \<Rightarrow>
          (case get_setup_guide_with_gemini env log4 readme_content file_structure of
             (Inl error, log5) \<Rightarrow> ((500, ErrorBody error), log5)
           | (Inr setup_guide, log5) \<Rightarrow>
               ((200, Documents readme_summary structure_analysis setup_guide), log5))))))
      | _ \<Rightarrow> ((400, ErrorBody ''Invalid GitHub URL''), log)))"

section \<open>The route /api/trending\<close>

text \<open>
  A point in time is a number of microseconds, and \<open>timedelta(days=n)\<close> the length of
  \<open>n\<close> days in that unit.
\<close>

definition timedelta_days :: "int \<Rightarrow> int" where
  "timedelta_days n = n * 86400000000"

text \<open>The local variable \<open>query\<close> of the route: the tokens joined with \<open>+\<close>.\<close>

definition trending_query :: "env \<Rightarrow> int \<Rightarrow> string option \<Rightarrow> string" where
  "trending_query env utcnow search_query =
     (let q = (case search_query of
                 None \<Rightarrow> []
               | Some s \<Rightarrow> if s = [] then [] else [s]);
          q = q @ [''created:>'' @ strftime env ''%Y-%m-%d'' (utcnow - timedelta_days 730)]
      in join ''+'' q)"

definition trending_url :: "string \<Rightarrow> string" where
  "trending_url query =
     ''https://api.github.com/search/repositories?q='' @ query
     @ ''&sort=stars&order=desc&per_page=12''"

text \<open>
  For comparison with the query above: the characters that a percent-encoded query value
  is made of (letters, digits, \<open>- . _ ~\<close>, the \<open>%\<close> of an escape and the \<open>+\<close> that joins the
  tokens).
\<close>

definition spec_escaped_char :: "char \<Rightarrow> bool" where
  "spec_escaped_char c \<longleftrightarrow>
     c \<in> set ''abcdefghijklmnopqrstuvwxyzABCDEFGHIJKLMNOPQRSTUVWXYZ0123456789-._~%+''"

record trending_entry =
  entry_name :: json
  entry_url :: json
  entry_stars :: json
  entry_description :: json
  entry_forks :: json

text \<open>One element of the list comprehension; the keys are read in the order of the source.\<close>

definition project_repo :: "json \<Rightarrow> py_exn + trending_entry" where
  "project_repo r =
     and_then (getitem r ''full_name'') (\<lambda>full_name.
     and_then (getitem r ''html_url'') (\<lambda>html_url.
     and_then (getitem r ''stargazers_count'') (\<lambda>stargazers_count.
     and_then (getitem r ''description'') (\<lambda>description.
     and_then (getitem r ''forks_count'') (\<lambda>forks_count.
       Inr \<lparr>entry_name = full_name,
            entry_url = html_url,
            entry_stars = stargazers_count,
            entry_description = (if truthy description then description else JStr []),
            entry_forks = forks_count\<rparr>)))))"

fun project_repos :: "json list \<Rightarrow> py_exn + trending_entry list" where
  "project_repos [] = Inr []"
| "project_repos (r # items) =
     and_then (project_repo r) (\<lambda>e.
     and_then (project_repos items) (\<lambda>es. Inr (e # es)))"

definition trending_result_of :: "http_reply \<Rightarrow> py_exn + trending_entry list" where
  "trending_result_of reply =
     and_then (raise_for_status reply) (\<lambda>body.
     and_then (response_json body) (\<lambda>j.
     and_then (get_default j ''items'' (JArr [])) (\<lambda>items.
     and_then (py_iter items) project_repos)))"

text \<open>
  The projection in the words of the specification: what an entry of the result shows of
  the repository it was made from.
\<close>

definition projection_of :: "json \<Rightarrow> trending_entry \<Rightarrow> bool" where
  "projection_of r e \<longleftrightarrow>
     getitem r ''full_name'' = Inr (entry_name e) \<and>
     getitem r ''html_url'' = Inr (entry_url e) \<and>
     getitem r ''stargazers_count'' = Inr (entry_stars e) \<and>
     (case getitem r ''description'' of
        Inl _ \<Rightarrow> False
      | Inr description \<Rightarrow>
          entry_description e = (if truthy description then description else JStr [])) \<and>
     getitem r ''forks_count'' = Inr (entry_forks e)"

datatype trending_body =
    TrendingError string
  | TrendingList "trending_entry list"

definition trending_repos_route ::
  "env \<Rightarrow> call list \<Rightarrow> int \<Rightarrow> string option \<Rightarrow> (nat \<times> trending_body) \<times> call list" where
  "trending_repos_route env log utcnow search_query =
     (let url = trending_url (trending_query env utcnow search_query)
      in (case trending_result_of (requests_get env log url 15) of
            Inr result \<Rightarrow> (200, TrendingList result)
          | Inl e \<Rightarrow> (500, TrendingError (''Error searching repos: '' @ str_exn env e)),
          log @ [HttpGet url 15]))"

section \<open>The idea board\<close>

text \<open>
  The two tables. The key of the model \<open>Post\<close> is \<open>post_id\<close> here, and the columns of
  \<open>Comment\<close> carry the prefix \<open>comment\<close>. A timestamp is a point in time in microseconds;
  every row the route writes has one, filled by the column default. The length 100 of
  \<open>repo_name\<close> is not enforced by the store and not modelled.
\<close>

record post =
  post_id :: nat
  post_repo_name :: string
  post_idea :: string
  post_timestamp :: int

record comment =
  comment_id :: nat
  comment_text :: string
  comment_timestamp :: int
  comment_post_id :: nat

text \<open>
  The store with the session of one request: \<open>posts\<close> and \<open>comments\<close> are the rows that
  are committed, \<open>txn_posts\<close> the rows of the table as the open transaction sees them, and
  \<open>session_new\<close> the objects added to the session and not yet written. Between two
  requests the session is clean: \<open>txn_posts\<close> equals \<open>posts\<close> and \<open>session_new\<close> is empty.
\<close>

record database =
  posts :: "post list"
  comments :: "comment list"
  txn_posts :: "post list"
  session_new :: "(string \<times> string) list"

definition empty_database :: database where
  "empty_database = \<lparr>posts = [], comments = [], txn_posts = [], session_new = []\<rparr>"

definition clean_session :: "database \<Rightarrow> bool" where
  "clean_session db \<longleftrightarrow> txn_posts db = posts db \<and> session_new db = []"

text \<open>Where a write to the store fails, if it does: before any row is written, or at COMMIT.\<close>

datatype storage_fault = NoFault | FlushFails | CommitFails

text \<open>An integer primary key: one more than the largest key of the table.\<close>

definition next_id :: "post list \<Rightarrow> nat" where
  "next_id rows = fold max (map post_id rows) 0 + 1"

text \<open>The INSERT of each new object; the column default fills the timestamp.\<close>

fun insert_posts :: "int \<Rightarrow> post list \<Rightarrow> (string \<times> string) list \<Rightarrow> post list" where
  "insert_posts utcnow rows [] = rows"
| "insert_posts utcnow rows ((repo_name, idea) # new) =
     insert_posts utcnow
       (rows @ [\<lparr>post_id = next_id rows, post_repo_name = repo_name, post_idea = idea,
                 post_timestamp = utcnow\<rparr>]) new"

definition session_add :: "database \<Rightarrow> string \<times> string \<Rightarrow> database" where
  "session_add db new_post = db\<lparr>session_new := session_new db @ [new_post]\<rparr>"

text \<open>\<open>db.session.commit()\<close>: the result says whether it returned (\<open>True\<close>) or raised.\<close>

definition session_commit :: "storage_fault \<Rightarrow> int \<Rightarrow> database \<Rightarrow> bool \<times> database" where
  "session_commit fault utcnow db =
     (if fault = FlushFails then (False, db)
      else
        (let db1 = db\<lparr>txn_posts := insert_posts utcnow (txn_posts db) (session_new db),
                      session_new := []\<rparr>
         in if fault = CommitFails then (False, db1)
            else (True, db1\<lparr>posts := txn_posts db1\<rparr>)))"

definition session_rollback :: "database \<Rightarrow> database" where
  "session_rollback db = db\<lparr>txn_posts := posts db, session_new := []\<rparr>"

text \<open>
  The two fields of the request body are strings, or \<open>None\<close> when the key is missing or
  null. The body of the response is the pair of \<open>success\<close> and \<open>message\<close>.
\<close>

definition add_post ::
  "storage_fault \<Rightarrow> int \<Rightarrow> database \<Rightarrow> string option \<Rightarrow> string option
     \<Rightarrow> (nat \<times> bool \<times> string) \<times> database" where
  "add_post fault utcnow db repo_name idea =
     (case (repo_name, idea) of
        (Some r, Some i) \<Rightarrow>
          if r \<noteq> [] \<and> i \<noteq> [] then
            (case session_commit fault utcnow (session_add db (r, i)) of
               (True, db') \<Rightarrow> ((201, True, ''Idea posted successfully!''), db')
             | (False, db') \<Rightarrow> ((500, False, ''Database error.''), session_rollback db'))
          else ((400, False, ''Missing repository name or idea.''), db)
      | _ \<Rightarrow> ((400, False, ''Missing repository name or idea.''), db))"

record post_summary =
  summary_id :: nat
  summary_repo_name :: string
  summary_idea :: string
  summary_timestamp :: string
  comments_count :: nat

text \<open>The relationship \<open>post.comments\<close>: the comments whose foreign key is the post's key.\<close>

definition comments_of :: "database \<Rightarrow> post \<Rightarrow> comment list" where
  "comments_of db p = filter (\<lambda>c. comment_post_id c = post_id p) (comments db)"

text \<open>
  \<open>ORDER BY timestamp DESC\<close>. SQL leaves the order of rows with equal timestamps open;
  here they stay in the order of the table.
\<close>

definition order_by_timestamp_desc :: "post list \<Rightarrow> post list" where
  "order_by_timestamp_desc rows = sort_key (\<lambda>p. - post_timestamp p) rows"

definition summary_of :: "env \<Rightarrow> database \<Rightarrow> post \<Rightarrow> post_summary" where
  "summary_of env db p =
     \<lparr>summary_id = post_id p,
      summary_repo_name = post_repo_name p,
      summary_idea = post_idea p,
      summary_timestamp = strftime env ''%Y-%m-%d %H:%M'' (post_timestamp p),
      comments_count = length (comments_of db p)\<rparr>"

datatype posts_body =
    PostsError string
  | PostList "post_summary list"

text \<open>\<open>query_ok\<close> is false when reading the store raises.\<close>

definition get_posts :: "env \<Rightarrow> bool \<Rightarrow> database \<Rightarrow> nat \<times> posts_body" where
  "get_posts env query_ok db =
     (if query_ok then
        (200, PostList (map (summary_of env db) (order_by_timestamp_desc (posts db))))
      else (500, PostsError ''Failed to fetch posts''))"

text \<open>
  The requests of the four routes and what each leaves in the store: only the POST on
  \<open>/api/posts\<close> writes.
\<close>

datatype request =
    Analyze "string option"
  | Trending "string option"
  | ListPosts
  | CreatePost "string option" "string option"

definition store_after :: "storage_fault \<Rightarrow> int \<Rightarrow> database \<Rightarrow> request \<Rightarrow> database" where
  "store_after fault utcnow db req =
     (case req of
        CreatePost repo_name idea \<Rightarrow> snd (add_post fault utcnow db repo_name idea)
      | _ \<Rightarrow> db)"

inductive reachable :: "database \<Rightarrow> bool" where
  start: "reachable empty_database"
| step: "reachable db \<Longrightarrow> reachable (store_after fault utcnow db req)"

definition posts_nonempty :: "database \<Rightarrow> bool" where
  "posts_nonempty db \<longleftrightarrow> list_all (\<lambda>p. post_repo_name p \<noteq> [] \<and> post_idea p \<noteq> []) (posts db)"

text \<open>The invariant of the store between two requests.\<close>

definition store_invariant :: "database \<Rightarrow> bool" where
  "store_invariant db \<longleftrightarrow> clean_session db \<and> posts_nonempty db"

section \<open>A test double of the outside world\<close>

text \<open>
  A fixed environment on which the definitions can be run: GitHub knows the repository
  \<open>o/r\<close> with the default branch \<open>main\<close> and a tree of three entries, answers a search
  with two repositories and every other request with status 404; the model answers every
  prompt with the same text, and \<open>strftime\<close> renders every point in time as the same
  date.
\<close>

definition mock_tree :: json where
  "mock_tree =
     JArr [JObj [(''path'', JStr ''README.md''), (''type'', JStr ''blob'')],
           JObj [(''path'', JStr ''src''), (''type'', JStr ''tree'')],
           JObj [(''path'', JStr ''src/app.py''), (''type'', JStr ''blob'')]]"

definition mock_repo :: "string \<Rightarrow> int \<Rightarrow> json" where
  "mock_repo full_name stars =
     JObj [(''full_name'', JStr full_name), (''html_url'', JStr (''https://github.com/'' @ full_name)),
           (''stargazers_count'', JNum stars), (''description'', JNull), (''forks_count'', JNum 0)]"

definition mock_requests_get :: "call list \<Rightarrow> string \<Rightarrow> nat \<Rightarrow> http_reply" where
  "mock_requests_get log url timeout =
     (if url = ''https://api.github.com/repos/o/r/readme'' then
        Response 200 (Some (JObj [(''content'', JStr ''aGk='')]))
      else if url = ''https://api.github.com/repos/o/r'' then
        Response 200 (Some (JObj [(''default_branch'', JStr ''main'')]))
      else if url = ''https://api.github.com/repos/o/r/git/trees/main?recursive=1'' then
        Response 200 (Some (JObj [(''tree'', mock_tree)]))
      else if prefix ''https://api.github.com/search/'' url then
        Response 200 (Some (JObj [(''items'', JArr [mock_repo ''a/b'' 1, mock_repo ''c/d'' 2])]))
      else Response 404 None)"

definition mock_env :: env where
  "mock_env =
     \<lparr>requests_get = mock_requests_get,
      generate_content = (\<lambda>log prompt. Inr ''# Title''),
      markdown = (\<lambda>text. ''<p>'' @ text @ ''</p>''),
      b64decode_utf8 = (\<lambda>s. if s = ''aGk='' then Inr ''hi'' else Inl DecodeError),
      str_exn = (\<lambda>e. ''failed''),
      str_json = (\<lambda>v. ''None''),
      strftime = (\<lambda>fmt t. ''2024-11-04'')\<rparr>"

text \<open>A store with three posts, written at the times 10, 20 and 30, and two comments.\<close>

definition mock_post :: "nat \<Rightarrow> int \<Rightarrow> post" where
  "mock_post n t = \<lparr>post_id = n, post_repo_name = ''repo'', post_idea = ''idea'', post_timestamp = t\<rparr>"

definition mock_database :: database where
  "mock_database =
     \<lparr>posts = [mock_post 1 10, mock_post 2 20, mock_post 3 30],
      comments = [\<lparr>comment_id = 1, comment_text = ''yes'', comment_timestamp = 40, comment_post_id = 2\<rparr>,
                  \<lparr>comment_id = 2, comment_text = ''no'', comment_timestamp = 50, comment_post_id = 2\<rparr>],
      txn_posts = [mock_post 1 10, mock_post 2 20, mock_post 3 30],
      session_new = []\<rparr>"

section \<open>Properties of the URL parser\<close>

lemma takeWhile_not_slash_append:
  "CHR ''/'' \<notin> set g \<Longrightarrow> takeWhile not_slash (g @ CHR ''/'' # r) = g"
  by (induction g) (auto simp: not_slash_def)

lemma dropWhile_not_slash_append:
  "CHR ''/'' \<notin> set g \<Longrightarrow> dropWhile not_slash (g @ CHR ''/'' # r) = CHR ''/'' # r"
  by (induction g) (auto simp: not_slash_def)

lemma takeWhile_not_slash_set: "CHR ''/'' \<notin> set (takeWhile not_slash s)"
  by (induction s) (auto simp: not_slash_def)

lemma takeWhile_not_slash_prefix:
  "CHR ''/'' \<notin> set g \<Longrightarrow> prefix g (takeWhile not_slash (g @ r))"
  by (induction g) (auto simp: not_slash_def)

lemma takeWhile_not_slash_end:
  "CHR ''/'' \<notin> set g \<Longrightarrow> r = [] \<or> hd r = CHR ''/'' \<Longrightarrow> takeWhile not_slash (g @ r) = g"
  by (induction g) (auto simp: not_slash_def takeWhile_eq_Nil_iff)

lemma match_pattern_at_exact:
  assumes "g1 \<noteq> []" "CHR ''/'' \<notin> set g1" "g2 \<noteq> []" "CHR ''/'' \<notin> set g2"
    and "r = [] \<or> hd r = CHR ''/''"
  shows "match_pattern_at (github_prefix @ g1 @ CHR ''/'' # g2 @ r) = Some (g1, g2)"
  using assms
  by (simp add: match_pattern_at_def Let_def takeWhile_not_slash_append
      dropWhile_not_slash_append takeWhile_not_slash_end)

lemma match_pattern_at_SomeD:
  assumes "match_pattern_at s = Some (g1, g2)"
  shows "\<exists>r. s = github_prefix @ g1 @ CHR ''/'' # g2 @ r \<and> g1 \<noteq> [] \<and> CHR ''/'' \<notin> set g1
           \<and> g2 \<noteq> [] \<and> CHR ''/'' \<notin> set g2 \<and> (r = [] \<or> hd r = CHR ''/'')"
proof -
  from assms have pre: "prefix github_prefix s"
    by (auto simp: match_pattern_at_def split: if_splits)
  define rest where "rest = drop (length github_prefix) s"
  from pre have s: "s = github_prefix @ rest"
    by (auto simp: rest_def prefix_def)
  from assms pre obtain c after where
    g1: "g1 = takeWhile not_slash rest" "g1 \<noteq> []"
    and dw: "dropWhile not_slash rest = c # after"
    and g2: "g2 = takeWhile not_slash after" "g2 \<noteq> []"
    by (auto simp: match_pattern_at_def Let_def rest_def split: if_splits list.splits)
  from dw have c: "c = CHR ''/''"
    using hd_dropWhile [of not_slash rest] by (auto simp: not_slash_def)
  have rest: "rest = g1 @ CHR ''/'' # after"
    using takeWhile_dropWhile_id [of not_slash rest] dw g1 c by simp
  have after: "after = g2 @ dropWhile not_slash after"
    using g2 by simp
  have tl: "dropWhile not_slash after = [] \<or> hd (dropWhile not_slash after) = CHR ''/''"
    using hd_dropWhile [of not_slash after] by (auto simp: not_slash_def)
  have "s = github_prefix @ g1 @ CHR ''/'' # g2 @ dropWhile not_slash after"
    using s rest after by simp
  with g1 g2 tl show ?thesis
    using takeWhile_not_slash_set by blast
qed

lemma match_pattern_at_longer:
  assumes "g1 \<noteq> []" "CHR ''/'' \<notin> set g1" "g2 \<noteq> []" "CHR ''/'' \<notin> set g2"
  shows "match_pattern_at (github_prefix @ g1 @ CHR ''/'' # g2 @ r) \<noteq> None"
proof -
  define g2' where "g2' = takeWhile not_slash (g2 @ r)"
  define r' where "r' = dropWhile not_slash (g2 @ r)"
  have split: "g2 @ r = g2' @ r'" by (simp add: g2'_def r'_def)
  have "prefix g2 g2'" unfolding g2'_def using assms(4) by (rule takeWhile_not_slash_prefix)
  with assms(3) have ne: "g2' \<noteq> []" by auto
  have ns: "CHR ''/'' \<notin> set g2'" by (simp add: g2'_def takeWhile_not_slash_set)
  have r': "r' = [] \<or> hd r' = CHR ''/''"
    using hd_dropWhile [of not_slash "g2 @ r"] by (auto simp: r'_def not_slash_def)
  have "match_pattern_at (github_prefix @ g1 @ CHR ''/'' # g2' @ r') = Some (g1, g2')"
    using assms(1,2) ne ns r' by (rule match_pattern_at_exact)
  then show ?thesis by (simp add: split)
qed

lemma re_search_append_None:
  "re_search (before @ t) = None \<Longrightarrow> match_pattern_at t = None"
proof (induction before)
  case Nil
  then show ?case by (cases t) (simp_all split: option.splits)
next
  case (Cons b bs)
  then show ?case by (simp split: option.splits)
qed

lemma re_search_SomeD:
  "re_search s = Some g \<Longrightarrow> \<exists>before t. s = before @ t \<and> match_pattern_at t = Some g"
proof (induction s)
  case Nil
  then have m: "match_pattern_at [] = Some g" by simp
  show ?case
    by (rule exI [where x = "[]"], rule exI [where x = "[]"]) (simp add: m)
next
  case (Cons c cs)
  show ?case
  proof (cases "match_pattern_at (c # cs)")
    case None
    with Cons.prems have "re_search cs = Some g" by simp
    from Cons.IH [OF this] obtain before t where
      bt: "cs = before @ t" "match_pattern_at t = Some g" by (elim exE conjE)
    show ?thesis
      by (rule exI [where x = "c # before"], rule exI [where x = t]) (simp add: bt)
  next
    case (Some a)
    with Cons.prems have m: "match_pattern_at (c # cs) = Some g" by simp
    show ?thesis
      by (rule exI [where x = "[]"], rule exI [where x = "c # cs"]) (simp add: m)
  qed
qed

lemma re_search_exact:
  assumes "g1 \<noteq> []" "CHR ''/'' \<notin> set g1" "g2 \<noteq> []" "CHR ''/'' \<notin> set g2"
    and "r = [] \<or> hd r = CHR ''/''"
  shows "re_search (github_prefix @ g1 @ CHR ''/'' # g2 @ r) = Some (g1, g2)"
proof -
  have m: "match_pattern_at (github_prefix @ g1 @ CHR ''/'' # g2 @ r) = Some (g1, g2)"
    using assms by (rule match_pattern_at_exact)
  obtain c cs where "github_prefix @ g1 @ CHR ''/'' # g2 @ r = c # cs"
    by (simp add: github_prefix_def)
  with m show ?thesis by simp
qed

lemma contains_github_patternI:
  assumes "url = before @ github_prefix @ owner @ ''/'' @ repo @ after"
    and "owner \<noteq> []" "CHR ''/'' \<notin> set owner" "repo \<noteq> []" "CHR ''/'' \<notin> set repo"
  shows "contains_github_pattern url"
  unfolding contains_github_pattern_def using assms by blast

lemma re_search_Some_iff_contains:
  "re_search url \<noteq> None \<longleftrightarrow> contains_github_pattern url"
proof
  assume "re_search url \<noteq> None"
  then obtain g1 g2 where "re_search url = Some (g1, g2)" by auto
  from re_search_SomeD [OF this] obtain before t where
    u: "url = before @ t" and m: "match_pattern_at t = Some (g1, g2)" by blast
  from match_pattern_at_SomeD [OF m] obtain r where
    t: "t = github_prefix @ g1 @ CHR ''/'' # g2 @ r" and
    c: "g1 \<noteq> []" "CHR ''/'' \<notin> set g1" "g2 \<noteq> []" "CHR ''/'' \<notin> set g2"
    by blast
  have "url = before @ github_prefix @ g1 @ ''/'' @ g2 @ r"
    using u t by simp
  then show "contains_github_pattern url"
    using c by (rule contains_github_patternI)
next
  assume "contains_github_pattern url"
  then obtain before owner repo after where
    u: "url = before @ github_prefix @ owner @ ''/'' @ repo @ after"
    and c: "owner \<noteq> []" "CHR ''/'' \<notin> set owner" "repo \<noteq> []" "CHR ''/'' \<notin> set repo"
    unfolding contains_github_pattern_def by blast
  have m: "match_pattern_at (github_prefix @ owner @ CHR ''/'' # repo @ after) \<noteq> None"
    using c by (rule match_pattern_at_longer)
  have e: "url = before @ (github_prefix @ owner @ CHR ''/'' # repo @ after)"
    using u by simp
  show "re_search url \<noteq> None"
  proof
    assume "re_search url = None"
    then have "re_search (before @ (github_prefix @ owner @ CHR ''/'' # repo @ after)) = None"
      unfolding e .
    then have "match_pattern_at (github_prefix @ owner @ CHR ''/'' # repo @ after) = None"
      by (rule re_search_append_None)
    with m show False by contradiction
  qed
qed

lemma parse_github_url_None_iff:
  "parse_github_url url = (None, None) \<longleftrightarrow> re_search url = None"
  by (simp add: parse_github_url_def split: option.splits prod.splits)

lemma contains_github_pattern_sublist:
  assumes "contains_github_pattern url"
  shows "sublist github_prefix url"
proof -
  from assms obtain before owner repo after where
    "url = before @ github_prefix @ (owner @ ''/'' @ repo @ after)"
    unfolding contains_github_pattern_def by auto
  then show ?thesis unfolding sublist_def by (intro exI)
qed

text \<open>
  Claim C10. The parser searches, it does not anchor: it returns a reference exactly when
  the input contains the literal \<open>https://github.com/\<close> followed by an owner segment,
  a \<open>/\<close> and a repository segment, with any text before and after. In particular an
  input in which \<open>https://github.com/\<close> does not occur, such as \<open>github.com/o/r\<close> or
  \<open>http://github.com/o/r\<close>, yields no reference.
\<close>

theorem parse_github_url_searches_https_pattern:
  "(parse_github_url url \<noteq> (None, None) \<longleftrightarrow> contains_github_pattern url) \<and>
   (\<not> sublist github_prefix url \<longrightarrow> parse_github_url url = (None, None))"
proof -
  have a: "parse_github_url url \<noteq> (None, None) \<longleftrightarrow> contains_github_pattern url"
    using re_search_Some_iff_contains [of url] parse_github_url_None_iff [of url] by simp
  have "parse_github_url url = (None, None)" if "\<not> sublist github_prefix url"
    using that a contains_github_pattern_sublist [of url] by blast
  with a show ?thesis by simp
qed

theorem parse_github_url_searches_https_pattern_witness:
  "contains_github_pattern ''see https://github.com/o/r/tree/main for more'' \<and>
   parse_github_url ''see https://github.com/o/r/tree/main for more'' = (Some ''o'', Some ''r'') \<and>
   \<not> contains_github_pattern ''github.com/o/r'' \<and>
   parse_github_url ''github.com/o/r'' = (None, None) \<and>
   \<not> sublist github_prefix ''http://github.com/o/r'' \<and>
   parse_github_url ''http://github.com/o/r'' = (None, None)"
proof -
  have p1: "parse_github_url ''see https://github.com/o/r/tree/main for more'' = (Some ''o'', Some ''r'')"
    by code_simp
  have p2: "parse_github_url ''github.com/o/r'' = (None, None)"
    by code_simp
  have s3: "\<not> sublist github_prefix ''http://github.com/o/r''"
    by code_simp
  show ?thesis
    using parse_github_url_searches_https_pattern [of "''see https://github.com/o/r/tree/main for more''"]
      parse_github_url_searches_https_pattern [of "''github.com/o/r''"]
      parse_github_url_searches_https_pattern [of "''http://github.com/o/r''"]
      p1 p2 s3
    by simp
qed

lemma parse_github_url_exact:
  assumes "owner \<noteq> []" "CHR ''/'' \<notin> set owner" "repo \<noteq> []" "CHR ''/'' \<notin> set repo"
    and "trailing = [] \<or> hd trailing = CHR ''/''"
  shows "parse_github_url (''https://github.com/'' @ owner @ ''/'' @ repo @ trailing)
           = (Some owner, Some (strip repo))"
proof -
  have "re_search (github_prefix @ owner @ CHR ''/'' # repo @ trailing) = Some (owner, repo)"
    using assms by (rule re_search_exact)
  then have "parse_github_url (github_prefix @ owner @ CHR ''/'' # repo @ trailing)
               = (Some owner, Some (strip repo))"
    by (simp add: parse_github_url_def)
  then show ?thesis by (simp add: github_prefix_def)
qed

lemma analyze_repo_route_no_reference:
  assumes "parse_github_url url = (None, None)"
  shows "analyze_repo_route env log (Some url) =
           ((400, ErrorBody (if url = [] then ''repo_url is required'' else ''Invalid GitHub URL'')), log)"
  using assms by (simp add: analyze_repo_route_def)

text \<open>
  Claim C2, as amended. For every URL that starts with \<open>https://github.com/\<close>, followed by
  an owner segment, a \<open>/\<close>, a repository segment and then nothing or a path that starts
  with \<open>/\<close>, parsing yields the owner and the repository segment with the white space at
  both of its ends removed. For every input in which the pattern
  \<open>https://github.com/{owner}/{repo}\<close> does not occur, parsing yields \<open>(None, None)\<close> and
  the analyze route answers with status 400 without calling upstream.
\<close>

theorem parse_github_url_https_reference:
  "(owner \<noteq> [] \<and> CHR ''/'' \<notin> set owner \<and> repo \<noteq> [] \<and> CHR ''/'' \<notin> set repo \<and>
    (trailing = [] \<or> hd trailing = CHR ''/'') \<longrightarrow>
      parse_github_url (''https://github.com/'' @ owner @ ''/'' @ repo @ trailing)
        = (Some owner, Some (strip repo))) \<and>
   (\<not> contains_github_pattern url \<longrightarrow>
      parse_github_url url = (None, None) \<and>
      analyze_repo_route env log (Some url) =
        ((400, ErrorBody (if url = [] then ''repo_url is required'' else ''Invalid GitHub URL'')),
         log))"
proof -
  have "parse_github_url url = (None, None)" if "\<not> contains_github_pattern url"
  proof -
    from that have "re_search url = None"
      using re_search_Some_iff_contains [of url] by blast
    then show ?thesis by (simp add: parse_github_url_None_iff)
  qed
  then show ?thesis
    using parse_github_url_exact [of owner repo trailing] analyze_repo_route_no_reference [of url env log]
    by blast
qed

theorem parse_github_url_https_reference_witness:
  "parse_github_url ''https://github.com/torvalds/linux /tree/master''
     = (Some ''torvalds'', Some ''linux'') \<and>
   parse_github_url ''github.com/o/r'' = (None, None) \<and>
   analyze_repo_route mock_env [] (Some ''github.com/o/r'')
     = ((400, ErrorBody ''Invalid GitHub URL''), [])"
proof -
  have s: "strip ''linux '' = ''linux''"
    by code_simp
  have "re_search ''github.com/o/r'' = None"
    by code_simp
  then have n: "\<not> contains_github_pattern ''github.com/o/r''"
    using re_search_Some_iff_contains [of "''github.com/o/r''"] by simp
  show ?thesis
    using parse_github_url_https_reference
      [of "''torvalds''" "''linux ''" "''/tree/master''" "''github.com/o/r''" mock_env "[]"] s n
    by simp
qed

text \<open>
  The claim as stated fails: \<open>http://github.com/owner/repo\<close> matches
  \<open>github.com/{owner}/{repo}\<close>, and parsing yields no reference.
\<close>

theorem parse_github_url_http_counterexample:
  "''http://github.com/owner/repo'' = ''http://'' @ ''github.com/'' @ ''owner'' @ ''/'' @ ''repo'' \<and>
   parse_github_url ''http://github.com/owner/repo'' = (None, None)"
  by code_simp

section \<open>Properties of the analysis pipeline\<close>

lemma parse_github_url_owner_nonempty:
  assumes "parse_github_url url = (Some owner, r)"
  shows "owner \<noteq> []"
proof -
  from assms obtain g2 where "re_search url = Some (owner, g2)"
    by (auto simp: parse_github_url_def split: option.splits)
  from re_search_SomeD [OF this] obtain before t where
    "match_pattern_at t = Some (owner, g2)" by blast
  from match_pattern_at_SomeD [OF this] show ?thesis by blast
qed

lemma get_github_readme_calls:
  "\<exists>c. snd (get_github_readme env log owner repo_name) = log @ [c]"
  by (simp add: get_github_readme_def Let_def)

lemma summarize_readme_calls:
  "\<exists>cs. snd (summarize_readme_with_gemini env log readme_content) = log @ cs \<and> length cs \<le> 1 \<and>
     (\<forall>x. fst (summarize_readme_with_gemini env log readme_content) = Inr x \<longrightarrow> length cs = 1)"
  by (simp add: summarize_readme_with_gemini_def Let_def)

lemma get_github_file_structure_calls:
  "\<exists>cs. snd (get_github_file_structure env log owner repo_name) = log @ cs \<and> length cs \<le> 2 \<and>
     (\<forall>x. fst (get_github_file_structure env log owner repo_name) = Inr x \<longrightarrow> length cs = 2)"
  by (simp add: get_github_file_structure_def Let_def split: sum.splits)

lemma analyze_structure_calls:
  "\<exists>cs. snd (analyze_structure_with_gemini env log file_structure) = log @ cs \<and> length cs \<le> 1 \<and>
     (\<forall>x. fst (analyze_structure_with_gemini env log file_structure) = Inr x \<longrightarrow> length cs = 1)"
  by (simp add: analyze_structure_with_gemini_def Let_def)

lemma get_setup_guide_calls:
  "\<exists>c. snd (get_setup_guide_with_gemini env log readme file_structure) = log @ [c]"
  by (simp add: get_setup_guide_with_gemini_def Let_def)


lemma get_github_readme_callsD:
  "get_github_readme env log owner repo_name = (x, l) \<Longrightarrow> \<exists>c. l = log @ [c]"
  using get_github_readme_calls [of env log owner repo_name] by simp

lemma summarize_readme_callsD:
  "summarize_readme_with_gemini env log readme_content = (x, l) \<Longrightarrow>
     \<exists>cs. l = log @ cs \<and> length cs \<le> 1 \<and> (\<forall>y. x = Inr y \<longrightarrow> length cs = 1)"
  using summarize_readme_calls [of env log readme_content] by simp

lemma get_github_file_structure_callsD:
  "get_github_file_structure env log owner repo_name = (x, l) \<Longrightarrow>
     \<exists>cs. l = log @ cs \<and> length cs \<le> 2 \<and> (\<forall>y. x = Inr y \<longrightarrow> length cs = 2)"
  using get_github_file_structure_calls [of env log owner repo_name] by simp

lemma analyze_structure_callsD:
  "analyze_structure_with_gemini env log file_structure = (x, l) \<Longrightarrow>
     \<exists>cs. l = log @ cs \<and> length cs \<le> 1 \<and> (\<forall>y. x = Inr y \<longrightarrow> length cs = 1)"
  using analyze_structure_calls [of env log file_structure] by simp

lemma get_setup_guide_callsD:
  "get_setup_guide_with_gemini env log readme file_structure = (x, l) \<Longrightarrow> \<exists>c. l = log @ [c]"
  using get_setup_guide_calls [of env log readme file_structure] by simp

lemma analyze_repo_route_calls:
  "\<exists>calls. snd (analyze_repo_route env log repo_url) = log @ calls \<and> length calls \<le> 6 \<and>
     (fst (fst (analyze_repo_route env log repo_url)) = 200 \<longrightarrow> length calls = 6)"
  unfolding analyze_repo_route_def
  by (auto split: option.splits prod.splits sum.splits
      dest!: get_github_readme_callsD summarize_readme_callsD get_github_file_structure_callsD
        analyze_structure_callsD get_setup_guide_callsD)

lemma analyze_repo_route_status:
  "(\<exists>msg. snd (fst (analyze_repo_route env log repo_url)) = ErrorBody msg) \<longleftrightarrow>
     fst (fst (analyze_repo_route env log repo_url)) \<noteq> 200"
  unfolding analyze_repo_route_def
  by (simp split: option.splits prod.splits sum.splits)


lemma analyze_repo_route_steps:
  assumes "parse_github_url url = (Some owner, Some repo_name)" "url \<noteq> []" "repo_name \<noteq> []"
  shows "analyze_repo_route env log (Some url) =
    (case get_github_readme env log owner repo_name of
       (Inl error, log1) \<Rightarrow> ((500, ErrorBody error), log1)
     | (Inr readme_content, log1) \<Rightarrow>
    (case summarize_readme_with_gemini env log1 readme_content of
       (Inl error, log2) \<Rightarrow> ((500, ErrorBody error), log2)
     | (Inr readme_summary, log2) \<Rightarrow>
    (case get_github_file_structure env log2 owner repo_name of
       (Inl error, log3) \<Rightarrow> ((500, ErrorBody error), log3)
     | (Inr file_structure, log3) \<Rightarrow>
    (case analyze_structure_with_gemini env log3 file_structure of
       (Inl error, log4) \<Rightarrow> ((500, ErrorBody error), log4)
     | (Inr structure_analysis, log4) \<Rightarrow>
    (case get_setup_guide_with_gemini env log4 readme_content file_structure of
       (Inl error, log5) \<Rightarrow> ((500, ErrorBody error), log5)
     | (Inr setup_guide, log5) \<Rightarrow>
         ((200, Documents readme_summary structure_analysis setup_guide), log5))))))"
  using assms parse_github_url_owner_nonempty [OF assms(1)]
  by (simp add: analyze_repo_route_def)

text \<open>
  Claim C1. The analyze route is all or nothing. Without a \<open>repo_url\<close>, or with one that
  gives no owner and repository, it answers 400 and calls nothing. Otherwise the steps run
  in order (README fetch, README summary, file-structure fetch, structure analysis, setup
  guide): when a step fails the response is the error of that step with status 500, and the
  calls made are those made by the end of that step, so no later step runs; only when all
  five succeed the response carries the three documents. No response carries a part of the
  documents: a response other than 200 has an error body, at most six calls are made, and a
  response 200 is given after exactly six.
\<close>

theorem analyze_repo_route_all_or_nothing:
  "(repo_url = None \<or> repo_url = Some [] \<longrightarrow>
      analyze_repo_route env log repo_url = ((400, ErrorBody ''repo_url is required''), log)) \<and>
   (repo_url = Some url \<and> url \<noteq> [] \<and>
    (parse_github_url url = (None, None) \<or> snd (parse_github_url url) = Some []) \<longrightarrow>
      analyze_repo_route env log repo_url = ((400, ErrorBody ''Invalid GitHub URL''), log)) \<and>
   (repo_url = Some url \<and> url \<noteq> [] \<and>
    parse_github_url url = (Some owner, Some repo_name) \<and> repo_name \<noteq> [] \<longrightarrow>
      (\<forall>error log1. get_github_readme env log owner repo_name = (Inl error, log1) \<longrightarrow>
         analyze_repo_route env log repo_url = ((500, ErrorBody error), log1)) \<and>
      (\<forall>readme_content log1.
         get_github_readme env log owner repo_name = (Inr readme_content, log1) \<longrightarrow>
      (\<forall>error log2. summarize_readme_with_gemini env log1 readme_content = (Inl error, log2) \<longrightarrow>
         analyze_repo_route env log repo_url = ((500, ErrorBody error), log2)) \<and>
      (\<forall>readme_summary log2.
         summarize_readme_with_gemini env log1 readme_content = (Inr readme_summary, log2) \<longrightarrow>
      (\<forall>error log3. get_github_file_structure env log2 owner repo_name = (Inl error, log3) \<longrightarrow>
         analyze_repo_route env log repo_url = ((500, ErrorBody error), log3)) \<and>
      (\<forall>file_structure log3.
         get_github_file_structure env log2 owner repo_name = (Inr file_structure, log3) \<longrightarrow>
      (\<forall>error log4. analyze_structure_with_gemini env log3 file_structure = (Inl error, log4) \<longrightarrow>
         analyze_repo_route env log repo_url = ((500, ErrorBody error), log4)) \<and>
      (\<forall>structure_analysis log4.
         analyze_structure_with_gemini env log3 file_structure = (Inr structure_analysis, log4) \<longrightarrow>
      (\<forall>error log5.
         get_setup_guide_with_gemini env log4 readme_content file_structure = (Inl error, log5) \<longrightarrow>
         analyze_repo_route env log repo_url = ((500, ErrorBody error), log5)) \<and>
      (\<forall>setup_guide log5.
         get_setup_guide_with_gemini env log4 readme_content file_structure = (Inr setup_guide, log5) \<longrightarrow>
         analyze_repo_route env log repo_url =
           ((200, Documents readme_summary structure_analysis setup_guide), log5))))))) \<and>
   ((\<exists>msg. snd (fst (analyze_repo_route env log repo_url)) = ErrorBody msg) \<longleftrightarrow>
      fst (fst (analyze_repo_route env log repo_url)) \<noteq> 200) \<and>
   (\<exists>calls. snd (analyze_repo_route env log repo_url) = log @ calls \<and> length calls \<le> 6 \<and>
      (fst (fst (analyze_repo_route env log repo_url)) = 200 \<longrightarrow> length calls = 6))"
  apply (intro conjI)
  subgoal by (auto simp: analyze_repo_route_def)
  subgoal by (auto simp: analyze_repo_route_def split: prod.splits option.splits)
  subgoal using analyze_repo_route_steps [of url owner repo_name env log] by auto
  subgoal by (rule analyze_repo_route_status)
  subgoal by (rule analyze_repo_route_calls)
  done

theorem analyze_repo_route_all_or_nothing_witness:
  "analyze_repo_route mock_env [] (Some ''https://github.com/o/r'') =
     ((200, Documents ''<p># Title</p>'' ''<p># Title</p>'' ''<p># Title</p>''),
      [HttpGet ''https://api.github.com/repos/o/r/readme'' 15,
       Generate (summary_prompt ''hi''),
       HttpGet ''https://api.github.com/repos/o/r'' 10,
       HttpGet ''https://api.github.com/repos/o/r/git/trees/main?recursive=1'' 15,
       Generate (structure_prompt ''README.md\<newline>src/app.py''),
       Generate (setup_prompt ''hi'' ''README.md\<newline>src/app.py'')]) \<and>
   analyze_repo_route mock_env [] (Some ''https://github.com/o/x'') =
     ((500, ErrorBody ''Could not fetch README. (HTTP Error: 404)''),
      [HttpGet ''https://api.github.com/repos/o/x/readme'' 15]) \<and>
   analyze_repo_route mock_env [] (Some ''github.com/o/r'') =
     ((400, ErrorBody ''Invalid GitHub URL''), []) \<and>
   analyze_repo_route mock_env [] None = ((400, ErrorBody ''repo_url is required''), [])"
proof -
  let ?l1 = "[HttpGet ''https://api.github.com/repos/o/r/readme'' 15]"
  let ?l2 = "?l1 @ [Generate (summary_prompt ''hi'')]"
  let ?l3 = "?l2 @ [HttpGet ''https://api.github.com/repos/o/r'' 10,
       HttpGet ''https://api.github.com/repos/o/r/git/trees/main?recursive=1'' 15]"
  let ?l4 = "?l3 @ [Generate (structure_prompt ''README.md\<newline>src/app.py'')]"
  let ?l5 = "?l4 @ [Generate (setup_prompt ''hi'' ''README.md\<newline>src/app.py'')]"
  have p: "parse_github_url ''https://github.com/o/r'' = (Some ''o'', Some ''r'')"
    by code_simp
  have s1: "get_github_readme mock_env [] ''o'' ''r'' = (Inr ''hi'', ?l1)"
    by (simp add: get_github_readme_def readme_content_of_def mock_env_def mock_requests_get_def
        raise_for_status_def response_json_def getitem_def and_then_def)
  have s2: "summarize_readme_with_gemini mock_env ?l1 ''hi'' = (Inr ''<p># Title</p>'', ?l2)"
    by (simp add: summarize_readme_with_gemini_def mock_env_def)
  have s3: "get_github_file_structure mock_env ?l2 ''o'' ''r''
              = (Inr ''README.md\<newline>src/app.py'', ?l3)"
    by (simp add: get_github_file_structure_def default_branch_of_def file_list_of_def
        repo_api_url_def tree_api_url_def format_value_def mock_env_def mock_requests_get_def
        mock_tree_def raise_for_status_def response_json_def getitem_def and_then_def
        py_iter_def str_join_def)
  have s4: "analyze_structure_with_gemini mock_env ?l3 ''README.md\<newline>src/app.py''
              = (Inr ''<p># Title</p>'', ?l4)"
    by (simp add: analyze_structure_with_gemini_def mock_env_def)
  have s5: "get_setup_guide_with_gemini mock_env ?l4 ''hi'' ''README.md\<newline>src/app.py''
              = (Inr ''<p># Title</p>'', ?l5)"
    by (simp add: get_setup_guide_with_gemini_def mock_env_def)
  have ok: "analyze_repo_route mock_env [] (Some ''https://github.com/o/r'') =
              ((200, Documents ''<p># Title</p>'' ''<p># Title</p>'' ''<p># Title</p>''), ?l5)"
    using analyze_repo_route_all_or_nothing
      [of "Some ''https://github.com/o/r''" mock_env "[]" "''https://github.com/o/r''" "''o''" "''r''"]
      p s1 s2 s3 s4 s5
    by simp
  have p': "parse_github_url ''https://github.com/o/x'' = (Some ''o'', Some ''x'')"
    by code_simp
  have n: "str_nat 404 = ''404''"
    by code_simp
  have f1: "get_github_readme mock_env [] ''o'' ''x''
              = (Inl ''Could not fetch README. (HTTP Error: 404)'',
                 [HttpGet ''https://api.github.com/repos/o/x/readme'' 15])"
    by (simp add: get_github_readme_def readme_content_of_def mock_env_def mock_requests_get_def
        raise_for_status_def and_then_def n)
  have failed: "analyze_repo_route mock_env [] (Some ''https://github.com/o/x'') =
     ((500, ErrorBody ''Could not fetch README. (HTTP Error: 404)''),
      [HttpGet ''https://api.github.com/repos/o/x/readme'' 15])"
    using analyze_repo_route_all_or_nothing
      [of "Some ''https://github.com/o/x''" mock_env "[]" "''https://github.com/o/x''" "''o''" "''x''"]
      p' f1
    by simp
  have q: "parse_github_url ''github.com/o/r'' = (None, None)"
    by code_simp
  have invalid: "analyze_repo_route mock_env [] (Some ''github.com/o/r'') =
     ((400, ErrorBody ''Invalid GitHub URL''), [])"
    using analyze_repo_route_all_or_nothing
      [of "Some ''github.com/o/r''" mock_env "[]" "''github.com/o/r''"] q
    by simp
  have missing: "analyze_repo_route mock_env [] None = ((400, ErrorBody ''repo_url is required''), [])"
    using analyze_repo_route_all_or_nothing [of None mock_env "[]"] by simp
  from ok failed invalid missing show ?thesis by simp
qed

section \<open>Properties of the helpers\<close>

text \<open>
  In the analyze route the two guards stand before the setup-guide step: an empty README
  text ends the route at the summary step, an empty file-structure text at the
  structure-analysis step, each with the error of that step and without a call to the
  model in it. So the route hands \<open>get_setup_guide_with_gemini\<close> two texts that are not
  empty.
\<close>

lemma analyze_repo_route_empty_readme:
  assumes "parse_github_url url = (Some owner, Some repo_name)" "url \<noteq> []" "repo_name \<noteq> []"
    and "get_github_readme env log owner repo_name = (Inr [], log1)"
  shows "analyze_repo_route env log (Some url) = ((500, ErrorBody ''README content is empty.''), log1)"
  using assms(4)
  by (simp add: analyze_repo_route_steps [OF assms(1-3)] summarize_readme_with_gemini_def)

lemma analyze_repo_route_empty_file_structure:
  assumes "parse_github_url url = (Some owner, Some repo_name)" "url \<noteq> []" "repo_name \<noteq> []"
    and "get_github_readme env log owner repo_name = (Inr readme_content, log1)"
    and "summarize_readme_with_gemini env log1 readme_content = (Inr readme_summary, log2)"
    and "get_github_file_structure env log2 owner repo_name = (Inr [], log3)"
  shows "analyze_repo_route env log (Some url) = ((500, ErrorBody ''File structure is empty.''), log3)"
  using assms(4-6)
  by (simp add: analyze_repo_route_steps [OF assms(1-3)] analyze_structure_with_gemini_def)



section \<open>Properties of the file-structure fetch\<close>

lemma and_then_InrD:
  "and_then r f = Inr y \<Longrightarrow> \<exists>x. r = Inr x \<and> f x = Inr y"
  by (cases r) (simp_all add: and_then_def)

lemma raise_for_status_InrD:
  "raise_for_status reply = Inr body \<Longrightarrow> \<exists>status_code. reply = Response status_code body"
  by (cases reply) (simp_all add: raise_for_status_def split: if_splits)

lemma response_json_InrD:
  "response_json body = Inr j \<Longrightarrow> body = Some j"
  by (cases body) (simp_all add: response_json_def)

lemma blob_paths_InrD:
  "blob_paths items = Inr ps \<Longrightarrow>
     list_all2 (\<lambda>p item. getitem item ''path'' = Inr p) ps (filter blob_entry items)"
proof (induction items arbitrary: ps)
  case Nil
  then show ?case by simp
next
  case (Cons item items)
  from Cons.prems obtain t where t: "getitem item ''type'' = Inr t"
    and rest: "(if t = JStr ''blob'' then
         and_then (getitem item ''path'') (\<lambda>p.
         and_then (blob_paths items) (\<lambda>ps. Inr (p # ps)))
       else blob_paths items) = Inr ps"
    by (auto dest!: and_then_InrD)
  show ?case
  proof (cases "t = JStr ''blob''")
    case True
    with rest obtain p qs where "getitem item ''path'' = Inr p" "blob_paths items = Inr qs"
      "ps = p # qs"
      by (auto dest!: and_then_InrD)
    with Cons.IH [of qs] t True show ?thesis by (simp add: blob_entry_def)
  next
    case False
    with rest have "blob_paths items = Inr ps" by simp
    with Cons.IH [of ps] t False show ?thesis by (simp add: blob_entry_def)
  qed
qed

lemma the_strs_SomeD:
  "the_strs xs = Some ss \<Longrightarrow> xs = map JStr ss"
  by (induction xs arbitrary: ss rule: the_strs.induct) (auto split: option.splits)

lemma paths_are_entry_paths:
  "list_all2 (\<lambda>p item. getitem item ''path'' = Inr p) (map JStr ss) items \<Longrightarrow>
     ss = map entry_path items"
proof (induction ss arbitrary: items)
  case Nil
  then show ?case by simp
next
  case (Cons s ss)
  then obtain item rest where "items = item # rest" "getitem item ''path'' = Inr (JStr s)"
    "list_all2 (\<lambda>p item. getitem item ''path'' = Inr p) (map JStr ss) rest"
    by (cases items) auto
  with Cons.IH [of rest] show ?case by (simp add: entry_path_def)
qed

lemma file_list_of_InrD:
  assumes "file_list_of reply = Inr text"
  shows "\<exists>status_code j tree items.
           reply = Response status_code (Some j) \<and> getitem j ''tree'' = Inr tree \<and>
           py_iter tree = Inr items \<and> text = spec_file_structure items"
proof -
  from assms obtain body j tree items files where
    r: "raise_for_status reply = Inr body" and j: "response_json body = Inr j"
    and t: "getitem j ''tree'' = Inr tree" and i: "py_iter tree = Inr items"
    and b: "blob_paths items = Inr files"
    and s: "str_join ''\<newline>'' (take 200 files) = Inr text"
    unfolding file_list_of_def by (auto dest!: and_then_InrD)
  from s obtain ss where ss: "the_strs (take 200 files) = Some ss" "text = join ''\<newline>'' ss"
    by (auto simp: str_join_def split: option.splits)
  from blob_paths_InrD [OF b]
  have "list_all2 (\<lambda>p item. getitem item ''path'' = Inr p) (take 200 files)
          (take 200 (filter blob_entry items))"
    by (rule list_all2_takeI)
  with the_strs_SomeD [OF ss(1)]
  have "ss = map entry_path (take 200 (filter blob_entry items))"
    by (simp add: paths_are_entry_paths)
  with ss(2) have "text = spec_file_structure items"
    by (simp add: spec_file_structure_def)
  moreover from r obtain status_code where "reply = Response status_code body"
    by (auto dest: raise_for_status_InrD)
  moreover from j have "body = Some j" by (rule response_json_InrD)
  ultimately show ?thesis using t i by blast
qed

lemma default_branch_of_InrD:
  assumes "default_branch_of reply = Inr default_branch"
  shows "\<exists>status_code info. reply = Response status_code (Some info) \<and>
           getitem info ''default_branch'' = Inr default_branch"
proof -
  from assms obtain body j where
    r: "raise_for_status reply = Inr body" and j: "response_json body = Inr j"
    and d: "getitem j ''default_branch'' = Inr default_branch"
    unfolding default_branch_of_def by (auto dest!: and_then_InrD)
  from r obtain status_code where "reply = Response status_code body"
    by (auto dest: raise_for_status_InrD)
  moreover from j have "body = Some j" by (rule response_json_InrD)
  ultimately show ?thesis using d by blast
qed

text \<open>
  Claim C6. When the file-structure fetch succeeds, two requests were made: one for the
  repository, whose answer names the default branch, and one for the recursive tree of
  that branch. The text returned is made of the entries of that tree of type \<open>blob\<close>: the
  paths of the first 200 of them, in the order of the tree, joined with newlines.
\<close>

theorem get_github_file_structure_text:
  assumes "get_github_file_structure env log owner repo_name = (Inr text, log')"
  shows "\<exists>status1 info default_branch status2 j tree items.
           requests_get env log (repo_api_url owner repo_name) 10 = Response status1 (Some info) \<and>
           getitem info ''default_branch'' = Inr default_branch \<and>
           requests_get env (log @ [HttpGet (repo_api_url owner repo_name) 10])
             (tree_api_url owner repo_name (format_value env default_branch)) 15
               = Response status2 (Some j) \<and>
           getitem j ''tree'' = Inr tree \<and>
           py_iter tree = Inr items \<and>
           text = join ''\<newline>'' (map entry_path (take 200 (filter blob_entry items))) \<and>
           log' = log @ [HttpGet (repo_api_url owner repo_name) 10,
                         HttpGet (tree_api_url owner repo_name (format_value env default_branch)) 15]"
proof -
  let ?log1 = "log @ [HttpGet (repo_api_url owner repo_name) 10]"
  from assms obtain default_branch where
    d: "default_branch_of (requests_get env log (repo_api_url owner repo_name) 10) = Inr default_branch"
    by (auto simp: get_github_file_structure_def Let_def split: sum.splits)
  let ?tree_url = "tree_api_url owner repo_name (format_value env default_branch)"
  from assms d have f: "file_list_of (requests_get env ?log1 ?tree_url 15) = Inr text"
    and l: "log' = ?log1 @ [HttpGet ?tree_url 15]"
    by (auto simp: get_github_file_structure_def Let_def split: sum.splits)
  from default_branch_of_InrD [OF d] obtain status1 info where
    1: "requests_get env log (repo_api_url owner repo_name) 10 = Response status1 (Some info)"
       "getitem info ''default_branch'' = Inr default_branch"
    by blast
  from file_list_of_InrD [OF f] obtain status2 j tree items where
    2: "requests_get env ?log1 ?tree_url 15 = Response status2 (Some j)"
       "getitem j ''tree'' = Inr tree" "py_iter tree = Inr items"
       "text = spec_file_structure items"
    by blast
  from 1 2 l show ?thesis
    unfolding spec_file_structure_def by (intro exI [where x = status1] exI [where x = info]
        exI [where x = default_branch] exI [where x = status2] exI [where x = j]
        exI [where x = tree] exI [where x = items]) simp
qed


theorem get_github_file_structure_text_witness:
  "get_github_file_structure mock_env [] ''o'' ''r'' =
     (Inr ''README.md\<newline>src/app.py'',
      [HttpGet ''https://api.github.com/repos/o/r'' 10,
       HttpGet ''https://api.github.com/repos/o/r/git/trees/main?recursive=1'' 15]) \<and>
   (\<exists>items. py_iter mock_tree = Inr items \<and>
      ''README.md\<newline>src/app.py''
        = join ''\<newline>'' (map entry_path (take 200 (filter blob_entry items))))"
proof -
  have run: "get_github_file_structure mock_env [] ''o'' ''r'' =
     (Inr ''README.md\<newline>src/app.py'',
      [HttpGet ''https://api.github.com/repos/o/r'' 10,
       HttpGet ''https://api.github.com/repos/o/r/git/trees/main?recursive=1'' 15])"
    by (simp add: get_github_file_structure_def default_branch_of_def file_list_of_def
        repo_api_url_def tree_api_url_def format_value_def mock_env_def mock_requests_get_def
        mock_tree_def raise_for_status_def response_json_def getitem_def and_then_def
        py_iter_def str_join_def)
  from get_github_file_structure_text [OF run]
  obtain status1 info default_branch status2 j tree items where
    i: "requests_get mock_env [] (repo_api_url ''o'' ''r'') 10 = Response status1 (Some info)"
    and d: "getitem info ''default_branch'' = Inr default_branch"
    and t: "requests_get mock_env ([] @ [HttpGet (repo_api_url ''o'' ''r'') 10])
             (tree_api_url ''o'' ''r'' (format_value mock_env default_branch)) 15
               = Response status2 (Some j)"
    and g: "getitem j ''tree'' = Inr tree"
    and p: "py_iter tree = Inr items"
    and x: "''README.md\<newline>src/app.py''
              = join ''\<newline>'' (map entry_path (take 200 (filter blob_entry items)))"
    by blast
  from i have "info = JObj [(''default_branch'', JStr ''main'')]"
    by (simp add: mock_env_def mock_requests_get_def repo_api_url_def)
  with d have "default_branch = JStr ''main''"
    by (simp add: getitem_def)
  with t have "j = JObj [(''tree'', mock_tree)]"
    by (simp add: mock_env_def mock_requests_get_def repo_api_url_def tree_api_url_def
        format_value_def)
  with g have "tree = mock_tree"
    by (simp add: getitem_def)
  with p x have "py_iter mock_tree = Inr items \<and>
      ''README.md\<newline>src/app.py''
        = join ''\<newline>'' (map entry_path (take 200 (filter blob_entry items)))"
    by simp
  then have "\<exists>items. py_iter mock_tree = Inr items \<and>
      ''README.md\<newline>src/app.py''
        = join ''\<newline>'' (map entry_path (take 200 (filter blob_entry items)))"
    by (rule exI)
  with run show ?thesis by (rule conjI)
qed

section \<open>Properties of the trending route\<close>

lemma project_repo_InrD:
  "project_repo r = Inr e \<Longrightarrow> projection_of r e"
  unfolding project_repo_def projection_of_def
  by (auto dest!: and_then_InrD)

lemma project_repos_InrD:
  "project_repos items = Inr es \<Longrightarrow> list_all2 projection_of items es"
proof (induction items arbitrary: es)
  case Nil
  then show ?case by simp
next
  case (Cons r items)
  from Cons.prems obtain e rest where "project_repo r = Inr e" "project_repos items = Inr rest"
    "es = e # rest"
    by (auto dest!: and_then_InrD)
  with Cons.IH [of rest] show ?case by (simp add: project_repo_InrD)
qed

lemma trending_result_of_InrD:
  assumes "trending_result_of reply = Inr es"
  shows "\<exists>status_code j found items.
           reply = Response status_code (Some j) \<and>
           get_default j ''items'' (JArr []) = Inr found \<and> py_iter found = Inr items \<and>
           list_all2 projection_of items es"
proof -
  from assms obtain body j found items where
    r: "raise_for_status reply = Inr body" and j: "response_json body = Inr j"
    and g: "get_default j ''items'' (JArr []) = Inr found" and i: "py_iter found = Inr items"
    and p: "project_repos items = Inr es"
    unfolding trending_result_of_def by (auto dest!: and_then_InrD)
  from r obtain status_code where "reply = Response status_code body"
    by (auto dest: raise_for_status_InrD)
  moreover from j have "body = Some j" by (rule response_json_InrD)
  ultimately show ?thesis using g i project_repos_InrD [OF p] by blast
qed

lemma trending_query_tokens:
  "trending_query env utcnow search_query =
     (case search_query of
        None \<Rightarrow> ''created:>'' @ strftime env ''%Y-%m-%d'' (utcnow - 730 * 86400000000)
      | Some s \<Rightarrow>
          if s = [] then ''created:>'' @ strftime env ''%Y-%m-%d'' (utcnow - 730 * 86400000000)
          else s @ ''+'' @ ''created:>'' @ strftime env ''%Y-%m-%d'' (utcnow - 730 * 86400000000))"
  by (simp add: trending_query_def timedelta_days_def Let_def split: option.splits)

text \<open>
  Claim C3, as amended. The route sends one request. Its query is the search term, when
  one is given and not empty, then \<open>+\<close>, then the token \<open>created:>\<close> with the date 730 days
  before the time of the call; without a term the query is that token alone. The query is
  put into the URL as it is, and the URL asks for \<open>sort=stars\<close>, \<open>order=desc\<close> and
  \<open>per_page=12\<close>. When the route answers 200, its list has one entry for each item of the
  upstream answer, in the order of that answer, and each entry is the projection of its
  item: \<open>name\<close> from \<open>full_name\<close>, \<open>url\<close> from \<open>html_url\<close>, \<open>stars\<close> from
  \<open>stargazers_count\<close>, \<open>forks\<close> from \<open>forks_count\<close>, and the description, replaced by the
  empty string when it is null (or any other value that counts as false).
\<close>

theorem trending_repos_route_query_and_projection:
  "(search_query = Some s \<and> s \<noteq> [] \<longrightarrow>
      trending_query env utcnow search_query =
        s @ ''+'' @ ''created:>'' @ strftime env ''%Y-%m-%d'' (utcnow - 730 * 86400000000)) \<and>
   (search_query = None \<or> search_query = Some [] \<longrightarrow>
      trending_query env utcnow search_query =
        ''created:>'' @ strftime env ''%Y-%m-%d'' (utcnow - 730 * 86400000000)) \<and>
   snd (trending_repos_route env log utcnow search_query) =
     log @ [HttpGet (''https://api.github.com/search/repositories?q=''
                     @ trending_query env utcnow search_query
                     @ ''&sort=stars&order=desc&per_page=12'') 15] \<and>
   (fst (trending_repos_route env log utcnow search_query) = (200, TrendingList es) \<longrightarrow>
      (\<exists>status_code j found items.
         requests_get env log (trending_url (trending_query env utcnow search_query)) 15
           = Response status_code (Some j) \<and>
         get_default j ''items'' (JArr []) = Inr found \<and> py_iter found = Inr items \<and>
         list_all2 projection_of items es \<and>
         length es = length items \<and>
         map (\<lambda>r. getitem r ''stargazers_count'') items = map (\<lambda>e. Inr (entry_stars e)) es))"
proof -
  have "\<exists>status_code j found items.
         requests_get env log (trending_url (trending_query env utcnow search_query)) 15
           = Response status_code (Some j) \<and>
         get_default j ''items'' (JArr []) = Inr found \<and> py_iter found = Inr items \<and>
         list_all2 projection_of items es \<and>
         length es = length items \<and>
         map (\<lambda>r. getitem r ''stargazers_count'') items = map (\<lambda>e. Inr (entry_stars e)) es"
    if "fst (trending_repos_route env log utcnow search_query) = (200, TrendingList es)"
  proof -
    from that have "trending_result_of
        (requests_get env log (trending_url (trending_query env utcnow search_query)) 15) = Inr es"
      by (simp add: trending_repos_route_def Let_def split: sum.splits)
    from trending_result_of_InrD [OF this] obtain status_code j found items where
      a: "requests_get env log (trending_url (trending_query env utcnow search_query)) 15
           = Response status_code (Some j)"
        "get_default j ''items'' (JArr []) = Inr found" "py_iter found = Inr items"
      and l: "list_all2 projection_of items es"
      by blast
    from l have n: "length es = length items"
      by (simp add: list_all2_lengthD)
    from l have "map (\<lambda>r. getitem r ''stargazers_count'') items
        = map (\<lambda>e. Inr (entry_stars e)) es"
      by (induction rule: list_all2_induct) (simp_all add: projection_of_def)
    with a l n show ?thesis by blast
  qed
  moreover have "snd (trending_repos_route env log utcnow search_query) =
     log @ [HttpGet (''https://api.github.com/search/repositories?q=''
                     @ trending_query env utcnow search_query
                     @ ''&sort=stars&order=desc&per_page=12'') 15]"
    by (simp add: trending_repos_route_def trending_url_def Let_def)
  ultimately show ?thesis
    by (simp add: trending_query_tokens)
qed


theorem trending_repos_route_query_and_projection_witness:
  "trending_query mock_env 0 (Some ''ml'') = ''ml+created:>2024-11-04'' \<and>
   trending_query mock_env 0 None = ''created:>2024-11-04'' \<and>
   snd (trending_repos_route mock_env [] 0 (Some ''ml'')) =
     [HttpGet ''https://api.github.com/search/repositories?q=ml+created:>2024-11-04&sort=stars&order=desc&per_page=12'' 15] \<and>
   (\<exists>items. length items = 2 \<and>
      list_all2 projection_of items
        [\<lparr>entry_name = JStr ''a/b'', entry_url = JStr ''https://github.com/a/b'',
          entry_stars = JNum 1, entry_description = JStr [], entry_forks = JNum 0\<rparr>,
         \<lparr>entry_name = JStr ''c/d'', entry_url = JStr ''https://github.com/c/d'',
          entry_stars = JNum 2, entry_description = JStr [], entry_forks = JNum 0\<rparr>])"
proof -
  let ?es = "[\<lparr>entry_name = JStr ''a/b'', entry_url = JStr ''https://github.com/a/b'',
          entry_stars = JNum 1, entry_description = JStr [], entry_forks = JNum 0\<rparr>,
         \<lparr>entry_name = JStr ''c/d'', entry_url = JStr ''https://github.com/c/d'',
          entry_stars = JNum 2, entry_description = JStr [], entry_forks = JNum 0\<rparr>]"
  note at_ml = trending_repos_route_query_and_projection
      [of "Some ''ml''" "''ml''" mock_env 0 "[]" ?es]
  note at_none = trending_repos_route_query_and_projection
      [of None "''ml''" mock_env 0 "[]" ?es]
  have day: "strftime mock_env ''%Y-%m-%d'' (0 - 730 * 86400000000) = ''2024-11-04''"
    by (simp add: mock_env_def)
  have "Some ''ml'' = Some ''ml'' \<and> ''ml'' \<noteq> []"
    by simp
  from at_ml [THEN conjunct1, THEN mp, OF this]
  have q: "trending_query mock_env 0 (Some ''ml'') = ''ml+created:>2024-11-04''"
    unfolding day by simp
  have "None = None \<or> None = Some []"
    by simp
  from at_none [THEN conjunct2, THEN conjunct1, THEN mp, OF this]
  have q0: "trending_query mock_env 0 None = ''created:>2024-11-04''"
    unfolding day by simp
  from at_ml [THEN conjunct2, THEN conjunct2, THEN conjunct1]
  have calls: "snd (trending_repos_route mock_env [] 0 (Some ''ml'')) =
     [HttpGet ''https://api.github.com/search/repositories?q=ml+created:>2024-11-04&sort=stars&order=desc&per_page=12'' 15]"
    unfolding q by simp
  have run: "fst (trending_repos_route mock_env [] 0 (Some ''ml'')) = (200, TrendingList ?es)"
    unfolding trending_repos_route_def Let_def q
    by (simp add: trending_url_def trending_result_of_def
        mock_env_def mock_requests_get_def mock_repo_def raise_for_status_def response_json_def
        get_default_def py_iter_def project_repo_def getitem_def truthy_def and_then_def)
  from at_ml [THEN conjunct2, THEN conjunct2, THEN conjunct2, THEN mp, OF run]
  obtain status_code j found items where
    l: "list_all2 projection_of items ?es" and n: "length ?es = length items"
    by (elim exE conjE)
  from n have "length items = 2"
    by simp
  then have both: "length items = 2 \<and> list_all2 projection_of items ?es"
    using l by (rule conjI)
  have ex: "\<exists>items. length items = 2 \<and> list_all2 projection_of items ?es"
    by (rule exI [where x = items]) (rule both)
  show ?thesis
    by (rule conjI [OF q conjI [OF q0 conjI [OF calls ex]]])
qed

text \<open>
  The claim as stated fails. For the term \<open>a&b\<close> the query holds the characters \<open>&\<close> and
  \<open>>\<close> as they are: nothing is escaped. And the route returns the two repositories of the
  upstream answer in the order of that answer, with 1 star before 2 stars: it does not
  sort.
\<close>

theorem trending_repos_route_counterexample:
  "trending_repos_route mock_env [] 0 (Some ''a&b'') =
     ((200, TrendingList
         [\<lparr>entry_name = JStr ''a/b'', entry_url = JStr ''https://github.com/a/b'',
           entry_stars = JNum 1, entry_description = JStr [], entry_forks = JNum 0\<rparr>,
          \<lparr>entry_name = JStr ''c/d'', entry_url = JStr ''https://github.com/c/d'',
           entry_stars = JNum 2, entry_description = JStr [], entry_forks = JNum 0\<rparr>]),
      [HttpGet ''https://api.github.com/search/repositories?q=a&b+created:>2024-11-04&sort=stars&order=desc&per_page=12'' 15]) \<and>
   \<not> list_all spec_escaped_char (trending_query mock_env 0 (Some ''a&b''))"
proof -
  have q: "trending_query mock_env 0 (Some ''a&b'') = ''a&b+created:>2024-11-04''"
    by (simp add: trending_query_def mock_env_def)
  have "\<not> list_all spec_escaped_char ''a&b+created:>2024-11-04''"
    by code_simp
  then have n: "\<not> list_all spec_escaped_char (trending_query mock_env 0 (Some ''a&b''))"
    unfolding q .
  have r: "trending_repos_route mock_env [] 0 (Some ''a&b'') =
     ((200, TrendingList
         [\<lparr>entry_name = JStr ''a/b'', entry_url = JStr ''https://github.com/a/b'',
           entry_stars = JNum 1, entry_description = JStr [], entry_forks = JNum 0\<rparr>,
          \<lparr>entry_name = JStr ''c/d'', entry_url = JStr ''https://github.com/c/d'',
           entry_stars = JNum 2, entry_description = JStr [], entry_forks = JNum 0\<rparr>]),
      [HttpGet ''https://api.github.com/search/repositories?q=a&b+created:>2024-11-04&sort=stars&order=desc&per_page=12'' 15])"
    unfolding trending_repos_route_def Let_def q
    by (simp add: trending_url_def trending_result_of_def
        mock_env_def mock_requests_get_def mock_repo_def raise_for_status_def response_json_def
        get_default_def py_iter_def project_repo_def getitem_def truthy_def and_then_def)
  from r n show ?thesis by (rule conjI)
qed

section \<open>Properties of the idea board\<close>

lemma add_post_rejected:
  assumes "repo_name = None \<or> repo_name = Some [] \<or> idea = None \<or> idea = Some []"
  shows "add_post fault utcnow db repo_name idea
           = ((400, False, ''Missing repository name or idea.''), db)"
  using assms by (auto simp: add_post_def split: option.splits)

lemma add_post_storage_failure:
  assumes "repo_name = Some r" "r \<noteq> []" "idea = Some i" "i \<noteq> []" "fault \<noteq> NoFault"
  shows "add_post fault utcnow db repo_name idea
           = ((500, False, ''Database error.''),
              db\<lparr>txn_posts := posts db, session_new := []\<rparr>)"
  using assms
  by (cases fault) (simp_all add: add_post_def session_commit_def session_add_def
      session_rollback_def Let_def)

lemma add_post_stored:
  assumes "repo_name = Some r" "r \<noteq> []" "idea = Some i" "i \<noteq> []"
  shows "add_post NoFault utcnow db repo_name idea
           = ((201, True, ''Idea posted successfully!''),
              db\<lparr>txn_posts := insert_posts utcnow (txn_posts db) (session_new db @ [(r, i)]),
                 session_new := [],
                 posts := insert_posts utcnow (txn_posts db) (session_new db @ [(r, i)])\<rparr>)"
  using assms
  by (simp add: add_post_def session_commit_def session_add_def Let_def)

lemma add_post_status:
  "fst (fst (add_post fault utcnow db repo_name idea)) \<in> {201, 400, 500}"
  by (cases fault)
    (auto simp: add_post_def session_commit_def session_add_def session_rollback_def Let_def
      split: option.splits)

lemma add_post_201_iff:
  "fst (fst (add_post fault utcnow db repo_name idea)) = 201 \<longleftrightarrow>
     fault = NoFault \<and> (\<exists>r i. repo_name = Some r \<and> r \<noteq> [] \<and> idea = Some i \<and> i \<noteq> [])"
  by (cases fault)
    (auto simp: add_post_def session_commit_def session_add_def session_rollback_def Let_def
      split: option.splits)

text \<open>
  Claim C4. Whenever \<open>add_post\<close> answers with an error the store is as it was. With a
  field that is empty or missing it answers 400 and touches nothing. When the write fails,
  before the row is written or at the commit, it answers 500 after a rollback: the
  committed posts and comments are unchanged, and the session holds neither the new object
  nor a row of the transaction.
\<close>

theorem add_post_error_leaves_store:
  "(repo_name = None \<or> repo_name = Some [] \<or> idea = None \<or> idea = Some [] \<longrightarrow>
      add_post fault utcnow db repo_name idea
        = ((400, False, ''Missing repository name or idea.''), db)) \<and>
   (repo_name = Some r \<and> r \<noteq> [] \<and> idea = Some i \<and> i \<noteq> [] \<and> fault \<noteq> NoFault \<longrightarrow>
      fst (add_post fault utcnow db repo_name idea) = (500, False, ''Database error.'') \<and>
      posts (snd (add_post fault utcnow db repo_name idea)) = posts db \<and>
      comments (snd (add_post fault utcnow db repo_name idea)) = comments db \<and>
      clean_session (snd (add_post fault utcnow db repo_name idea))) \<and>
   (fst (fst (add_post fault utcnow db repo_name idea)) \<noteq> 201 \<and> clean_session db \<longrightarrow>
      snd (add_post fault utcnow db repo_name idea) = db)"
proof (intro conjI impI)
  assume "repo_name = None \<or> repo_name = Some [] \<or> idea = None \<or> idea = Some []"
  then show "add_post fault utcnow db repo_name idea
        = ((400, False, ''Missing repository name or idea.''), db)"
    by (rule add_post_rejected)
next
  assume a: "repo_name = Some r \<and> r \<noteq> [] \<and> idea = Some i \<and> i \<noteq> [] \<and> fault \<noteq> NoFault"
  then have v: "repo_name = Some r" "r \<noteq> []" "idea = Some i" "i \<noteq> []" "fault \<noteq> NoFault"
    by simp_all
  have e: "add_post fault utcnow db repo_name idea
           = ((500, False, ''Database error.''),
              db\<lparr>txn_posts := posts db, session_new := []\<rparr>)"
    using v by (rule add_post_storage_failure)
  show "fst (add_post fault utcnow db repo_name idea) = (500, False, ''Database error.'')"
    "posts (snd (add_post fault utcnow db repo_name idea)) = posts db"
    "comments (snd (add_post fault utcnow db repo_name idea)) = comments db"
    "clean_session (snd (add_post fault utcnow db repo_name idea))"
    by (simp_all add: e clean_session_def)
next
  assume a: "fst (fst (add_post fault utcnow db repo_name idea)) \<noteq> 201 \<and> clean_session db"
  then have c: "txn_posts db = posts db" "session_new db = []"
    by (simp_all add: clean_session_def)
  have same: "db\<lparr>txn_posts := posts db, session_new := []\<rparr> = db"
    using c by simp
  show "snd (add_post fault utcnow db repo_name idea) = db"
  proof (cases "\<exists>r i. repo_name = Some r \<and> r \<noteq> [] \<and> idea = Some i \<and> i \<noteq> []")
    case True
    then obtain r i where v: "repo_name = Some r" "r \<noteq> []" "idea = Some i" "i \<noteq> []"
      by (elim exE conjE)
    from a True have "fault \<noteq> NoFault"
      using add_post_201_iff [of fault utcnow db repo_name idea] by blast
    with v show ?thesis
      by (simp add: add_post_storage_failure same)
  next
    case False
    then have "repo_name = None \<or> repo_name = Some [] \<or> idea = None \<or> idea = Some []"
      by (cases repo_name; cases idea) auto
    then show ?thesis
      by (simp add: add_post_rejected)
  qed
qed


theorem add_post_error_leaves_store_witness:
  "add_post NoFault 5 empty_database (Some []) (Some ''idea'')
     = ((400, False, ''Missing repository name or idea.''), empty_database) \<and>
   add_post NoFault 5 empty_database (Some ''repo'') (Some [])
     = ((400, False, ''Missing repository name or idea.''), empty_database) \<and>
   add_post NoFault 5 empty_database None None
     = ((400, False, ''Missing repository name or idea.''), empty_database) \<and>
   fst (add_post CommitFails 5 empty_database (Some ''repo'') (Some ''idea''))
     = (500, False, ''Database error.'') \<and>
   snd (add_post CommitFails 5 empty_database (Some ''repo'') (Some ''idea'')) = empty_database \<and>
   snd (add_post FlushFails 5 empty_database (Some ''repo'') (Some ''idea'')) = empty_database"
proof -
  have c: "clean_session empty_database"
    by (simp add: clean_session_def empty_database_def)
  have s1: "fst (fst (add_post CommitFails 5 empty_database (Some ''repo'') (Some ''idea''))) \<noteq> 201"
    by (simp add: add_post_def session_commit_def session_add_def session_rollback_def)
  have s2: "fst (fst (add_post FlushFails 5 empty_database (Some ''repo'') (Some ''idea''))) \<noteq> 201"
    by (simp add: add_post_def session_commit_def session_add_def session_rollback_def)
  show ?thesis
    using add_post_error_leaves_store [of "Some []" "Some ''idea''" NoFault 5 empty_database]
      add_post_error_leaves_store [of "Some ''repo''" "Some []" NoFault 5 empty_database]
      add_post_error_leaves_store [of None None NoFault 5 empty_database]
      add_post_error_leaves_store
        [of "Some ''repo''" "Some ''idea''" CommitFails 5 empty_database "''repo''" "''idea''"]
      add_post_error_leaves_store
        [of "Some ''repo''" "Some ''idea''" FlushFails 5 empty_database "''repo''" "''idea''"]
      c s1 s2
    by simp
qed

lemma order_by_timestamp_desc_mset:
  "mset (order_by_timestamp_desc rows) = mset rows"
  by (simp add: order_by_timestamp_desc_def)

lemma order_by_timestamp_desc_sorted:
  "sorted_wrt (\<lambda>p q. post_timestamp q \<le> post_timestamp p) (order_by_timestamp_desc rows)"
proof -
  have "sorted (map (\<lambda>p. - post_timestamp p) (order_by_timestamp_desc rows))"
    by (simp add: order_by_timestamp_desc_def)
  then show ?thesis
    by (simp add: sorted_map sorted_wrt_iff_nth_less)
qed

lemma three_sorted_desc:
  fixes t :: "'a \<Rightarrow> int"
  assumes m: "mset ys = {#p1, p2, p3#}"
    and s: "sorted_wrt (\<lambda>p q. t q \<le> t p) ys"
    and lt: "t p1 < t p2" "t p2 < t p3"
  shows "ys = [p3, p2, p1]"
proof -
  from m have "length ys = 3"
    by (metis size_mset size_add_mset size_empty numeral_3_eq_3)
  then obtain a b c where ys: "ys = [a, b, c]"
    by (auto simp: numeral_3_eq_3 length_Suc_conv)
  from m ys have e: "{#a, b, c#} = {#p1, p2, p3#}"
    by simp
  from s ys have o: "t b \<le> t a" "t c \<le> t b" "t c \<le> t a"
    by simp_all
  from e have ia: "a \<in># {#p1, p2, p3#}" and ic: "c \<in># {#p1, p2, p3#}"
    and i1: "p1 \<in># {#a, b, c#}" and i3: "p3 \<in># {#a, b, c#}"
    by (metis union_single_eq_member add_mset_commute)+
  from i3 o have "t p3 \<le> t a"
    by auto
  with ia lt have a: "a = p3"
    by auto
  from i1 o have "t c \<le> t p1"
    by auto
  with ic lt have c: "c = p1"
    by auto
  from e a c have "{#p3, b, p1#} = {#p1, p2, p3#}"
    by simp
  then have "add_mset b {#p1, p3#} = add_mset p2 {#p1, p3#}"
    by (simp add: add_mset_commute)
  then have "b = p2"
    by simp
  with a c ys show ?thesis
    by simp
qed


text \<open>
  Claim C7. \<open>get_posts\<close> returns the summaries of all posts, most recent first: the posts
  behind the list are the posts of the store, ordered by falling timestamp. For three
  posts written at the times t1 < t2 < t3, whatever their order in the table, the list is
  the one of t3, then t2, then t1. Each summary shows the key, the repository name and the
  idea of its post, and counts the comments of the store whose foreign key is the key of
  the post.
\<close>

theorem get_posts_most_recent_first:
  "(\<exists>ordered.
      get_posts env True db = (200, PostList (map (summary_of env db) ordered)) \<and>
      mset ordered = mset (posts db) \<and>
      sorted_wrt (\<lambda>p q. post_timestamp q \<le> post_timestamp p) ordered) \<and>
   (mset (posts db) = {#p1, p2, p3#} \<and>
    post_timestamp p1 < post_timestamp p2 \<and> post_timestamp p2 < post_timestamp p3 \<longrightarrow>
      get_posts env True db =
        (200, PostList [summary_of env db p3, summary_of env db p2, summary_of env db p1])) \<and>
   summary_id (summary_of env db p) = post_id p \<and>
   summary_repo_name (summary_of env db p) = post_repo_name p \<and>
   summary_idea (summary_of env db p) = post_idea p \<and>
   comments_count (summary_of env db p)
     = size (filter_mset (\<lambda>c. comment_post_id c = post_id p) (mset (comments db)))"
proof -
  let ?ordered = "order_by_timestamp_desc (posts db)"
  have g: "get_posts env True db = (200, PostList (map (summary_of env db) ?ordered))"
    by (simp add: get_posts_def)
  have "get_posts env True db = (200, PostList (map (summary_of env db) ?ordered)) \<and>
      mset ?ordered = mset (posts db) \<and>
      sorted_wrt (\<lambda>p q. post_timestamp q \<le> post_timestamp p) ?ordered"
    using g order_by_timestamp_desc_mset order_by_timestamp_desc_sorted by simp
  then have 1: "\<exists>ordered.
      get_posts env True db = (200, PostList (map (summary_of env db) ordered)) \<and>
      mset ordered = mset (posts db) \<and>
      sorted_wrt (\<lambda>p q. post_timestamp q \<le> post_timestamp p) ordered"
    by (rule exI [where x = ?ordered])
  have 2: "get_posts env True db =
        (200, PostList [summary_of env db p3, summary_of env db p2, summary_of env db p1])"
    if m: "mset (posts db) = {#p1, p2, p3#}"
      and lt: "post_timestamp p1 < post_timestamp p2" "post_timestamp p2 < post_timestamp p3"
  proof -
    have "mset ?ordered = {#p1, p2, p3#}"
      using m by (simp add: order_by_timestamp_desc_mset)
    then have "?ordered = [p3, p2, p1]"
      using order_by_timestamp_desc_sorted lt by (rule three_sorted_desc)
    with g show ?thesis by simp
  qed
  have 3: "comments_count (summary_of env db p)
     = size (filter_mset (\<lambda>c. comment_post_id c = post_id p) (mset (comments db)))"
    by (simp add: summary_of_def comments_of_def flip: mset_filter)
  show ?thesis
    using 1 2 3 by (simp add: summary_of_def)
qed

theorem get_posts_most_recent_first_witness:
  "get_posts mock_env True mock_database =
     (200, PostList
        [\<lparr>summary_id = 3, summary_repo_name = ''repo'', summary_idea = ''idea'',
          summary_timestamp = ''2024-11-04'', comments_count = 0\<rparr>,
         \<lparr>summary_id = 2, summary_repo_name = ''repo'', summary_idea = ''idea'',
          summary_timestamp = ''2024-11-04'', comments_count = 2\<rparr>,
         \<lparr>summary_id = 1, summary_repo_name = ''repo'', summary_idea = ''idea'',
          summary_timestamp = ''2024-11-04'', comments_count = 0\<rparr>])"
proof -
  have m: "mset (posts mock_database) = {#mock_post 1 10, mock_post 2 20, mock_post 3 30#}"
    by (simp add: mock_database_def)
  have lt: "post_timestamp (mock_post 1 10) < post_timestamp (mock_post 2 20)"
    "post_timestamp (mock_post 2 20) < post_timestamp (mock_post 3 30)"
    by (simp_all add: mock_post_def)
  from get_posts_most_recent_first
    [of mock_env mock_database "mock_post 1 10" "mock_post 2 20" "mock_post 3 30",
      THEN conjunct2, THEN conjunct1, THEN mp, OF conjI [OF m conjI [OF lt]]]
  show ?thesis
    by (simp add: summary_of_def comments_of_def mock_database_def mock_post_def mock_env_def)
qed

text \<open>
  Claim C8. On the empty store, creating the post (\<open>repoA\<close>, \<open>ideaX\<close>) and then listing
  the posts gives exactly one entry, with that repository name, that idea and no comment.
\<close>

theorem add_post_then_get_posts:
  "fst (add_post NoFault utcnow empty_database (Some ''repoA'') (Some ''ideaX''))
     = (201, True, ''Idea posted successfully!'') \<and>
   get_posts env True (snd (add_post NoFault utcnow empty_database (Some ''repoA'') (Some ''ideaX'')))
     = (200, PostList
          [\<lparr>summary_id = 1, summary_repo_name = ''repoA'', summary_idea = ''ideaX'',
            summary_timestamp = strftime env ''%Y-%m-%d %H:%M'' utcnow, comments_count = 0\<rparr>])"
  by (simp add: add_post_def session_commit_def session_add_def empty_database_def next_id_def
      get_posts_def order_by_timestamp_desc_def summary_of_def comments_of_def)

theorem add_post_then_get_posts_witness:
  "get_posts mock_env True (snd (add_post NoFault 5 empty_database (Some ''repoA'') (Some ''ideaX'')))
     = (200, PostList
          [\<lparr>summary_id = 1, summary_repo_name = ''repoA'', summary_idea = ''ideaX'',
            summary_timestamp = ''2024-11-04'', comments_count = 0\<rparr>])"
  using add_post_then_get_posts [of 5 mock_env]
  by (simp add: mock_env_def)

lemma insert_posts_nonempty:
  assumes "list_all (\<lambda>p. post_repo_name p \<noteq> [] \<and> post_idea p \<noteq> []) rows"
    and "list_all (\<lambda>n. fst n \<noteq> [] \<and> snd n \<noteq> []) new"
  shows "list_all (\<lambda>p. post_repo_name p \<noteq> [] \<and> post_idea p \<noteq> [])
           (insert_posts utcnow rows new)"
  using assms
  by (induction utcnow rows new rule: insert_posts.induct) simp_all

lemma add_post_invariant:
  assumes "store_invariant db"
  shows "store_invariant (snd (add_post fault utcnow db repo_name idea))"
proof (cases "\<exists>r i. repo_name = Some r \<and> r \<noteq> [] \<and> idea = Some i \<and> i \<noteq> []")
  case True
  then obtain r i where v: "repo_name = Some r" "r \<noteq> []" "idea = Some i" "i \<noteq> []"
    by (elim exE conjE)
  from assms have c: "txn_posts db = posts db" "session_new db = []"
    and n: "list_all (\<lambda>p. post_repo_name p \<noteq> [] \<and> post_idea p \<noteq> []) (posts db)"
    by (simp_all add: store_invariant_def clean_session_def posts_nonempty_def)
  show ?thesis
  proof (cases "fault = NoFault")
    case True
    have "list_all (\<lambda>p. post_repo_name p \<noteq> [] \<and> post_idea p \<noteq> [])
            (insert_posts utcnow (posts db) [(r, i)])"
      using n v by (intro insert_posts_nonempty) simp_all
    then show ?thesis
      using True c by (simp add: add_post_stored [OF v] store_invariant_def clean_session_def
          posts_nonempty_def)
  next
    case False
    with v have "snd (add_post fault utcnow db repo_name idea)
                   = db\<lparr>txn_posts := posts db, session_new := []\<rparr>"
      by (simp add: add_post_storage_failure)
    with assms show ?thesis
      by (simp add: store_invariant_def clean_session_def posts_nonempty_def)
  qed
next
  case False
  then have "repo_name = None \<or> repo_name = Some [] \<or> idea = None \<or> idea = Some []"
    by (cases repo_name; cases idea) auto
  with assms show ?thesis
    by (simp add: add_post_rejected)
qed

lemma store_after_invariant:
  "store_invariant db \<Longrightarrow> store_invariant (store_after fault utcnow db req)"
  by (cases req) (simp_all add: store_after_def add_post_invariant)

lemma empty_database_invariant: "store_invariant empty_database"
  by (simp add: store_invariant_def clean_session_def posts_nonempty_def empty_database_def)

lemma reachable_invariant: "reachable db \<Longrightarrow> store_invariant db"
  by (induction rule: reachable.induct) (simp_all add: empty_database_invariant store_after_invariant)

text \<open>
  Claim C9. Every post of the store has a repository name and an idea that are not empty.
  This holds in the empty store and every request of the four routes preserves it, so it
  holds in every store that the routes can reach. The requests other than the creation
  of a post leave the store as it is.
\<close>

theorem posts_nonempty_invariant:
  "(store_invariant db \<longrightarrow> store_invariant (store_after fault utcnow db req)) \<and>
   (reachable db \<longrightarrow>
      clean_session db \<and>
      list_all (\<lambda>p. post_repo_name p \<noteq> [] \<and> post_idea p \<noteq> []) (posts db)) \<and>
   store_after fault utcnow db (Analyze repo_url) = db \<and>
   store_after fault utcnow db (Trending search_query) = db \<and>
   store_after fault utcnow db ListPosts = db"
  using store_after_invariant [of db fault utcnow req] reachable_invariant [of db]
  by (auto simp: store_after_def store_invariant_def posts_nonempty_def)

theorem posts_nonempty_invariant_witness:
  "reachable (store_after NoFault 5 empty_database (CreatePost (Some ''repoA'') (Some ''ideaX''))) \<and>
   posts (store_after NoFault 5 empty_database (CreatePost (Some ''repoA'') (Some ''ideaX'')))
     = [\<lparr>post_id = 1, post_repo_name = ''repoA'', post_idea = ''ideaX'', post_timestamp = 5\<rparr>] \<and>
   store_invariant (store_after NoFault 5 empty_database (CreatePost (Some ''repoA'') (Some ''ideaX''))) \<and>
   list_all (\<lambda>p. post_repo_name p \<noteq> [] \<and> post_idea p \<noteq> [])
     (posts (store_after NoFault 5 empty_database (CreatePost (Some ''repoA'') (Some ''ideaX'')))) \<and>
   posts (store_after NoFault 5 empty_database (CreatePost (Some []) (Some ''ideaX''))) = []"
proof -
  let ?db = "store_after NoFault 5 empty_database (CreatePost (Some ''repoA'') (Some ''ideaX''))"
  have r: "reachable ?db"
    by (rule reachable.step) (rule reachable.start)
  have i: "store_invariant empty_database"
    by (rule empty_database_invariant)
  have p: "posts ?db
     = [\<lparr>post_id = 1, post_repo_name = ''repoA'', post_idea = ''ideaX'', post_timestamp = 5\<rparr>]"
    by (simp add: store_after_def add_post_def session_commit_def session_add_def
        empty_database_def next_id_def)
  have e: "posts (store_after NoFault 5 empty_database (CreatePost (Some []) (Some ''ideaX''))) = []"
    by (simp add: store_after_def add_post_def empty_database_def)
  have s: "store_invariant ?db"
    using posts_nonempty_invariant
      [of empty_database NoFault 5 "CreatePost (Some ''repoA'') (Some ''ideaX'')", THEN conjunct1] i
    by (rule mp)
  have "clean_session ?db \<and>
      list_all (\<lambda>p. post_repo_name p \<noteq> [] \<and> post_idea p \<noteq> []) (posts ?db)"
    using posts_nonempty_invariant [of ?db NoFault 5 ListPosts, THEN conjunct2, THEN conjunct1] r
    by (rule mp)
  then have l: "list_all (\<lambda>p. post_repo_name p \<noteq> [] \<and> post_idea p \<noteq> []) (posts ?db)"
    by (rule conjunct2)
  show ?thesis
    by (rule conjI [OF r conjI [OF p conjI [OF s conjI [OF l e]]]])
qed

end
